theory Spec2Isabelle
  imports
    Main
    "HOL-Library.Word"
    "HOL-Library.RBT"
    "HOL-Library.List_Lexorder"
    "HOL-Library.Char_ord"
begin

section \<open>Common types of the C ABI\<close>

text \<open>
  The result codes used by the functions modelled here (\<^verbatim>\<open>rac_result_t\<close>),
  and \<^verbatim>\<open>rac_bool_t\<close>.
\<close>

datatype rac_result_t =
    RAC_SUCCESS
  | RAC_ERROR_INVALID_ARGUMENT
  | RAC_ERROR_OUT_OF_MEMORY
  | RAC_ERROR_NOT_FOUND
  | RAC_ERROR_ADAPTER_NOT_SET
  | RAC_ERROR_FILE_NOT_FOUND
  | RAC_ERROR_FILE_WRITE_FAILED
  | RAC_ERROR_STORAGE_ERROR

datatype rac_bool_t = RAC_FALSE | RAC_TRUE

text \<open>
  A \<^verbatim>\<open>char*\<close> is either the null pointer (\<open>None\<close>) or points to a
  NUL-terminated byte string, kept without its terminator.
\<close>

type_synonym cstr = "string option"

section \<open>The C allocator\<close>

text \<open>
  \<^verbatim>\<open>malloc\<close>, \<^verbatim>\<open>calloc\<close> and \<^verbatim>\<open>strdup\<close> may fail. The heap
  carries the outcomes of the coming allocation requests (\<open>plan\<close>; once it is used up
  every request succeeds) and the number of blocks that are allocated and not yet
  freed (\<open>live\<close>).
\<close>

record heap =
  plan :: "bool list"
  live :: int

definition alloc :: "heap \<Rightarrow> bool \<times> heap" where
  "alloc h =
     (case plan h of
        [] \<Rightarrow> (True, h\<lparr>live := live h + 1\<rparr>)
      | b # bs \<Rightarrow> (b, h\<lparr>plan := bs, live := (if b then live h + 1 else live h)\<rparr>))"

definition c_free :: "heap \<Rightarrow> heap" where
  "c_free h = h\<lparr>live := live h - 1\<rparr>"

text \<open>
  Modelled from the spec: \<^verbatim>\<open>rac_strdup\<close> is called by \<^verbatim>\<open>deep_copy_lora_entry\<close> but
  its source is not in \<^verbatim>\<open>lora_registry.cpp\<close> or its header. The deep-copy protocol of
  the specification (a failed allocation along the copy means out-of-memory) and the
  check that follows the calls (a non-null source string that failed to copy means
  out-of-memory) fix what is used of it: null for a null argument, without allocating;
  otherwise a fresh copy of the string, or null when the allocation fails.
\<close>

definition rac_strdup :: "heap \<Rightarrow> cstr \<Rightarrow> cstr \<times> heap" where
  "rac_strdup h s =
     (case s of
        None \<Rightarrow> (None, h)
      | Some str \<Rightarrow> (case alloc h of (True, h') \<Rightarrow> (Some str, h') | (False, h') \<Rightarrow> (None, h')))"

text \<open>
  \<^verbatim>\<open>strcmp\<close> compares byte by byte, as unsigned values; only the sign of a
  non-zero result is specified.
\<close>

fun strcmp :: "string \<Rightarrow> string \<Rightarrow> int" where
  "strcmp [] [] = 0"
| "strcmp [] (y # ys) = - 1"
| "strcmp (x # xs) [] = 1"
| "strcmp (x # xs) (y # ys) =
     (if x = y then strcmp xs ys else int (of_char x) - int (of_char y))"

section \<open>LoRA entries (\<^verbatim>\<open>rac_lora_registry.h\<close>)\<close>

text \<open>
  \<^verbatim>\<open>rac_lora_entry_t\<close>. The array \<^verbatim>\<open>char** compatible_model_ids\<close> is null or
  points to a sequence of slots; \<^verbatim>\<open>compatible_model_count\<close> is kept beside it as in
  the struct. \<^verbatim>\<open>default_scale\<close> is a \<^verbatim>\<open>float\<close> that is only ever copied, so it is
  kept as its 32-bit pattern.
\<close>

record rac_lora_entry =
  lora_id :: cstr
  name :: cstr
  description :: cstr
  download_url :: cstr
  filename :: cstr
  compatible_model_ids :: "cstr list option"
  compatible_model_count :: nat
  file_size :: "64 word"
  default_scale :: "32 word"

text \<open>
  The functions read \<^verbatim>\<open>compatible_model_ids[i]\<close> for every \<open>i\<close> below the count.
  In C this is defined only when the array has that many slots.
\<close>

definition valid_entry :: "rac_lora_entry \<Rightarrow> bool" where
  "valid_entry e =
     (case compatible_model_ids e of
        None \<Rightarrow> True
      | Some ids \<Rightarrow> compatible_model_count e \<le> length ids)"

text \<open>The list of compatible model ids an entry denotes: the slots below the count.\<close>

definition model_ids_of :: "rac_lora_entry \<Rightarrow> cstr list" where
  "model_ids_of e =
     (case compatible_model_ids e of
        None \<Rightarrow> []
      | Some ids \<Rightarrow> map (\<lambda>i. ids ! i) [0..<compatible_model_count e])"

text \<open>Field-for-field equality of two entries, the list compared as a list.\<close>

definition same_fields :: "rac_lora_entry \<Rightarrow> rac_lora_entry \<Rightarrow> bool" where
  "same_fields a b \<longleftrightarrow>
     lora_id a = lora_id b \<and> name a = name b \<and> description a = description b \<and>
     download_url a = download_url b \<and> filename a = filename b \<and>
     model_ids_of a = model_ids_of b \<and>
     file_size a = file_size b \<and> default_scale a = default_scale b"

text \<open>The result of \<^verbatim>\<open>calloc(1, sizeof(rac_lora_entry_t))\<close>: every field zero.\<close>

definition calloc_entry :: rac_lora_entry where
  "calloc_entry =
     \<lparr>lora_id = None, name = None, description = None, download_url = None,
      filename = None, compatible_model_ids = None, compatible_model_count = 0,
      file_size = 0, default_scale = 0\<rparr>"

subsection \<open>\<^verbatim>\<open>free_lora_entry\<close>\<close>

definition free_str :: "heap \<Rightarrow> cstr \<Rightarrow> heap" where
  "free_str h p = (if p \<noteq> None then c_free h else h)"

definition free_lora_entry :: "heap \<Rightarrow> rac_lora_entry option \<Rightarrow> heap" where
  "free_lora_entry h entry =
     (case entry of
        None \<Rightarrow> h
      | Some e \<Rightarrow>
          let h1 = free_str h (lora_id e);
              h2 = free_str h1 (name e);
              h3 = free_str h2 (description e);
              h4 = free_str h3 (download_url e);
              h5 = free_str h4 (filename e);
              h6 = (case compatible_model_ids e of
                      None \<Rightarrow> h5
                    | Some ids \<Rightarrow>
                        c_free (fold (\<lambda>i hh. free_str hh (ids ! i))
                                  [0..<compatible_model_count e] h5))
          in c_free h6)"

subsection \<open>\<^verbatim>\<open>deep_copy_lora_entry\<close>\<close>

text \<open>
  The loop that fills the copied array. It returns whether every slot was copied,
  the array as far as it was written, and the heap.
\<close>

function copy_model_ids ::
  "cstr list \<Rightarrow> nat \<Rightarrow> nat \<Rightarrow> cstr list \<Rightarrow> heap \<Rightarrow> bool \<times> cstr list \<times> heap" where
  "copy_model_ids src n i dst h =
     (if i < n then
        (case rac_strdup h (src ! i) of
           (c, h') \<Rightarrow>
             if src ! i \<noteq> None \<and> c = None then (False, dst[i := c], h')
             else copy_model_ids src n (Suc i) (dst[i := c]) h')
      else (True, dst, h))"
  by pat_completeness auto
termination
  by (relation "measure (\<lambda>(src, n, i, dst, h). n - i)") auto

declare copy_model_ids.simps [simp del]

definition deep_copy_lora_entry ::
  "heap \<Rightarrow> rac_lora_entry option \<Rightarrow> rac_lora_entry option \<times> heap" where
  "deep_copy_lora_entry h src_ptr =
     (case src_ptr of
        None \<Rightarrow> (None, h)
      | Some src \<Rightarrow>
         (case alloc h of
            (False, h0) \<Rightarrow> (None, h0)
          | (True, h0) \<Rightarrow>
             (case rac_strdup h0 (lora_id src) of (c_id, h1) \<Rightarrow>
              case rac_strdup h1 (name src) of (c_name, h2) \<Rightarrow>
              case rac_strdup h2 (description src) of (c_desc, h3) \<Rightarrow>
              case rac_strdup h3 (download_url src) of (c_url, h4) \<Rightarrow>
              case rac_strdup h4 (filename src) of (c_file, h5) \<Rightarrow>
              let copy = calloc_entry\<lparr>lora_id := c_id, name := c_name, description := c_desc,
                           download_url := c_url, filename := c_file\<rparr>
              in
                if (lora_id src \<noteq> None \<and> c_id = None) \<or>
                   (name src \<noteq> None \<and> c_name = None) \<or>
                   (description src \<noteq> None \<and> c_desc = None) \<or>
                   (download_url src \<noteq> None \<and> c_url = None) \<or>
                   (filename src \<noteq> None \<and> c_file = None)
                then (None, free_lora_entry h5 (Some copy))
                else
                  let finish = (\<lambda>c hh. (Some (c\<lparr>file_size := file_size src,
                                   default_scale := default_scale src\<rparr>), hh))
                  in
                  (case compatible_model_ids src of
                     None \<Rightarrow> finish copy h5
                   | Some ids \<Rightarrow>
                      if compatible_model_count src > 0 then
                        (case alloc h5 of
                           (False, h6) \<Rightarrow> (None, free_lora_entry h6 (Some copy))
                         | (True, h6) \<Rightarrow>
                            (case copy_model_ids ids (compatible_model_count src) 0
                                    (replicate (compatible_model_count src) None) h6 of
                               (ok, dst, h7) \<Rightarrow>
                                 let copy' = copy\<lparr>compatible_model_ids := Some dst,
                                       compatible_model_count := compatible_model_count src\<rparr>
                                 in if \<not> ok then (None, free_lora_entry h7 (Some copy'))
                                    else finish copy' h7))
                      else finish copy h5))))"

section \<open>The LoRA registry (\<^verbatim>\<open>lora_registry.cpp\<close>)\<close>

text \<open>
  \<^verbatim>\<open>struct rac_lora_registry\<close> holds a \<^verbatim>\<open>std::map\<close> from the adapter id to the
  stored entry: a search tree ordered by the bytes of the key, iterated in key order.
  The mutex is held for the whole of each call and is not modelled; neither are the
  allocations of the map's own nodes, whose failure raises a C++ exception instead of
  returning a result code. A handle is a pointer to the registry, null or not.
\<close>

record rac_lora_registry =
  entries :: "(string, rac_lora_entry) rbt"

type_synonym rac_lora_registry_handle_t = "rac_lora_registry option"

subsection \<open>\<^verbatim>\<open>rac_lora_registry_register\<close>\<close>

definition rac_lora_registry_register ::
  "heap \<Rightarrow> rac_lora_registry_handle_t \<Rightarrow> rac_lora_entry option \<Rightarrow>
     rac_result_t \<times> rac_lora_registry_handle_t \<times> heap" where
  "rac_lora_registry_register h handle entry =
     (case (handle, entry) of
        (Some reg, Some e) \<Rightarrow>
          (case lora_id e of
             None \<Rightarrow> (RAC_ERROR_INVALID_ARGUMENT, handle, h)
           | Some adapter_id \<Rightarrow>
               (case deep_copy_lora_entry h entry of
                  (None, h1) \<Rightarrow> (RAC_ERROR_OUT_OF_MEMORY, handle, h1)
                | (Some copy, h1) \<Rightarrow>
                    let h2 = (case RBT.lookup (entries reg) adapter_id of
                                Some old \<Rightarrow> free_lora_entry h1 (Some old)
                              | None \<Rightarrow> h1)
                    in (RAC_SUCCESS,
                        Some (reg\<lparr>entries := RBT.insert adapter_id copy (entries reg)\<rparr>),
                        h2)))
      | _ \<Rightarrow> (RAC_ERROR_INVALID_ARGUMENT, handle, h))"

subsection \<open>\<^verbatim>\<open>rac_lora_registry_get\<close>\<close>

text \<open>
  An output parameter is a pointer to a cell: \<open>None\<close> is the null pointer, \<open>Some v\<close> a
  cell that holds \<open>v\<close>. A function returns the cell as it leaves it.
\<close>

definition rac_lora_registry_get ::
  "heap \<Rightarrow> rac_lora_registry_handle_t \<Rightarrow> cstr \<Rightarrow> rac_lora_entry option option \<Rightarrow>
     rac_result_t \<times> rac_lora_entry option option \<times> heap" where
  "rac_lora_registry_get h handle adapter_id out_entry =
     (case (handle, adapter_id, out_entry) of
        (Some reg, Some aid, Some _) \<Rightarrow>
          (case RBT.lookup (entries reg) aid of
             None \<Rightarrow> (RAC_ERROR_NOT_FOUND, out_entry, h)
           | Some stored \<Rightarrow>
               (case deep_copy_lora_entry h (Some stored) of
                  (None, h1) \<Rightarrow> (RAC_ERROR_OUT_OF_MEMORY, Some None, h1)
                | (Some copy, h1) \<Rightarrow> (RAC_SUCCESS, Some (Some copy), h1)))
      | _ \<Rightarrow> (RAC_ERROR_INVALID_ARGUMENT, out_entry, h))"

subsection \<open>\<^verbatim>\<open>rac_lora_registry_get_for_model\<close>\<close>

text \<open>
  The inner loop over one entry's \<^verbatim>\<open>compatible_model_ids\<close>: at the first slot that is
  not null and compares equal it appends the entry to \<^verbatim>\<open>matches\<close> and leaves the loop.
\<close>

function match_model_ids ::
  "cstr list \<Rightarrow> nat \<Rightarrow> nat \<Rightarrow> string \<Rightarrow> rac_lora_entry \<Rightarrow> rac_lora_entry list \<Rightarrow>
     rac_lora_entry list" where
  "match_model_ids ids n i model_id e matches =
     (if i < n then
        (case ids ! i of
           Some s \<Rightarrow>
             if strcmp s model_id = 0 then matches @ [e]
             else match_model_ids ids n (Suc i) model_id e matches
         | None \<Rightarrow> match_model_ids ids n (Suc i) model_id e matches)
      else matches)"
  by pat_completeness auto
termination
  by (relation "measure (\<lambda>(ids, n, i, model_id, e, matches). n - i)") auto

declare match_model_ids.simps [simp del]

text \<open>The outer loop over the map, in key order.\<close>

definition collect_matches ::
  "(string \<times> rac_lora_entry) list \<Rightarrow> string \<Rightarrow> rac_lora_entry list" where
  "collect_matches pairs model_id =
     fold (\<lambda>(k, e) matches.
             case compatible_model_ids e of
               None \<Rightarrow> matches
             | Some ids \<Rightarrow>
                 match_model_ids ids (compatible_model_count e) 0 model_id e matches)
          pairs []"

text \<open>
  The loop that deep-copies the matches into the output array; when a copy fails it
  frees the copies made so far. \<open>out\<close> is the part of the array already filled.
\<close>

fun copy_matches ::
  "rac_lora_entry list \<Rightarrow> rac_lora_entry list \<Rightarrow> heap \<Rightarrow> rac_lora_entry list option \<times> heap" where
  "copy_matches [] out h = (Some out, h)"
| "copy_matches (m # ms) out h =
     (case deep_copy_lora_entry h (Some m) of
        (None, h') \<Rightarrow> (None, fold (\<lambda>c hh. free_lora_entry hh (Some c)) out h')
      | (Some c, h') \<Rightarrow> copy_matches ms (out @ [c]) h')"

definition rac_lora_registry_get_for_model ::
  "heap \<Rightarrow> rac_lora_registry_handle_t \<Rightarrow> cstr \<Rightarrow>
     rac_lora_entry list option option \<Rightarrow> nat option \<Rightarrow>
     rac_result_t \<times> rac_lora_entry list option option \<times> nat option \<times> heap" where
  "rac_lora_registry_get_for_model h handle model_id out_entries out_count =
     (case (handle, model_id, out_entries, out_count) of
        (Some reg, Some mid, Some _, Some _) \<Rightarrow>
          let matches = collect_matches (RBT.entries (entries reg)) mid
          in if length matches = 0 then (RAC_SUCCESS, Some None, Some 0, h)
             else
               (case alloc h of
                  (False, h1) \<Rightarrow>
                    (RAC_ERROR_OUT_OF_MEMORY, Some None, Some (length matches), h1)
                | (True, h1) \<Rightarrow>
                    (case copy_matches matches [] h1 of
                       (None, h2) \<Rightarrow> (RAC_ERROR_OUT_OF_MEMORY, Some None, Some 0, c_free h2)
                     | (Some out, h2) \<Rightarrow>
                         (RAC_SUCCESS, Some (Some out), Some (length matches), h2)))
      | _ \<Rightarrow> (RAC_ERROR_INVALID_ARGUMENT, out_entries, out_count, h))"

subsection \<open>\<^verbatim>\<open>rac_lora_entry_free\<close> and \<^verbatim>\<open>rac_lora_entry_copy\<close>\<close>

definition rac_lora_entry_free :: "heap \<Rightarrow> rac_lora_entry option \<Rightarrow> heap" where
  "rac_lora_entry_free h entry = free_lora_entry h entry"

definition rac_lora_entry_copy ::
  "heap \<Rightarrow> rac_lora_entry option \<Rightarrow> rac_lora_entry option \<times> heap" where
  "rac_lora_entry_copy h entry = deep_copy_lora_entry h entry"

subsection \<open>Heap blocks owned by an entry\<close>

text \<open>
  The number of blocks \<^verbatim>\<open>free_lora_entry\<close> has to release for an entry: one for each
  string that is not null, the array with each of its non-null slots, and the struct.
\<close>

definition str_blocks :: "cstr \<Rightarrow> int" where
  "str_blocks p = (if p = None then 0 else 1)"

definition blocks :: "rac_lora_entry \<Rightarrow> int" where
  "blocks e =
     str_blocks (lora_id e) + str_blocks (name e) + str_blocks (description e) +
     str_blocks (download_url e) + str_blocks (filename e) +
     (case compatible_model_ids e of
        None \<Rightarrow> 0
      | Some ids \<Rightarrow> (\<Sum>i\<leftarrow>[0..<compatible_model_count e]. str_blocks (ids ! i)) + 1) + 1"

subsection \<open>Allocations made by a copy\<close>

text \<open>
  The number of allocation requests a complete run of \<^verbatim>\<open>deep_copy_lora_entry\<close> makes
  for an entry: the struct, each string that is not null, and, when the entry has an
  array and a positive count, the array and each of its non-null slots. A run of \<open>n\<close>
  requests meets no failure when none of the next \<open>n\<close> answers of the allocator is a
  refusal. \<^verbatim>\<open>rac_lora_registry_get_for_model\<close> with a non-empty list of matching pairs
  asks for the result array and then for one copy of each.
\<close>

definition str_allocations :: "cstr \<Rightarrow> nat" where
  "str_allocations p = (if p = None then 0 else 1)"

definition copy_allocations :: "rac_lora_entry \<Rightarrow> nat" where
  "copy_allocations e =
     1 + str_allocations (lora_id e) + str_allocations (name e) +
     str_allocations (description e) + str_allocations (download_url e) +
     str_allocations (filename e) +
     (case compatible_model_ids e of
        None \<Rightarrow> 0
      | Some ids \<Rightarrow>
          if compatible_model_count e > 0
          then 1 + (\<Sum>i\<leftarrow>[0..<compatible_model_count e]. str_allocations (ids ! i))
          else 0)"

definition no_failure :: "nat \<Rightarrow> heap \<Rightarrow> bool" where
  "no_failure n h \<longleftrightarrow> False \<notin> set (take n (plan h))"

definition get_for_model_allocations :: "(string \<times> rac_lora_entry) list \<Rightarrow> nat" where
  "get_for_model_allocations M = 1 + (\<Sum>p\<leftarrow>M. copy_allocations (snd p))"

subsection \<open>Well-formed registries and the matching relation\<close>

text \<open>
  Every stored entry is read through its count, so a registry is well formed when each
  stored entry is. An entry is compatible with a model id when one of its slots holds
  exactly that byte string.
\<close>

definition valid_registry :: "rac_lora_registry \<Rightarrow> bool" where
  "valid_registry reg = list_all valid_entry (map snd (RBT.entries (entries reg)))"

definition model_matches :: "string \<Rightarrow> rac_lora_entry \<Rightarrow> bool" where
  "model_matches model_id e \<longleftrightarrow> Some model_id \<in> set (model_ids_of e)"

section \<open>The JNI bridge (\<^verbatim>\<open>runanywhere_commons_jni.cpp\<close>)\<close>

subsection \<open>The managed runtime as the bridge uses it\<close>

text \<open>
  A managed object is known to the bridge by its identity and by the method table of
  its class; \<^verbatim>\<open>GetMethodID\<close> resolves a name and a signature against that table and
  leaves a \<^verbatim>\<open>NoSuchMethodError\<close> pending when the method is missing. The environment
  of the calling thread holds the global references and the pending exception.
\<close>

type_synonym jmethodID = "string \<times> string"

record jobject =
  object_id :: nat
  class_methods :: "(string \<times> string) list"

record jni_env =
  global_refs :: "jobject list"
  pending_exception :: bool

definition NewGlobalRef :: "jni_env \<Rightarrow> jobject \<Rightarrow> jobject \<times> jni_env" where
  "NewGlobalRef env obj = (obj, env\<lparr>global_refs := obj # global_refs env\<rparr>)"

definition DeleteGlobalRef :: "jni_env \<Rightarrow> jobject \<Rightarrow> jni_env" where
  "DeleteGlobalRef env obj = env\<lparr>global_refs := remove1 obj (global_refs env)\<rparr>"

definition GetMethodID ::
  "jni_env \<Rightarrow> (string \<times> string) list \<Rightarrow> string \<Rightarrow> string \<Rightarrow> jmethodID option \<times> jni_env" where
  "GetMethodID env cls nm sig =
     (if (nm, sig) \<in> set cls then (Some (nm, sig), env)
      else (None, env\<lparr>pending_exception := True\<rparr>))"

text \<open>
  A native thread as the virtual machine sees it: attached or not, whether an attach
  would succeed, whether the requested JNI version is supported, the pending
  exception, and how many exceptions have been described on the error stream.
\<close>

datatype jint_status = JNI_OK | JNI_EDETACHED | JNI_EVERSION | JNI_ERR

record jni_thread =
  attached :: bool
  attach_succeeds :: bool
  version_supported :: bool
  exception_pending :: bool
  exceptions_described :: nat

definition GetEnv :: "jni_thread \<Rightarrow> jint_status" where
  "GetEnv t =
     (if \<not> attached t then JNI_EDETACHED
      else if \<not> version_supported t then JNI_EVERSION
      else JNI_OK)"

definition AttachCurrentThread :: "jni_thread \<Rightarrow> jint_status \<times> jni_thread" where
  "AttachCurrentThread t =
     (if attach_succeeds t then (JNI_OK, t\<lparr>attached := True\<rparr>) else (JNI_ERR, t))"

definition DetachCurrentThread :: "jni_thread \<Rightarrow> jni_thread" where
  "DetachCurrentThread t = t\<lparr>attached := False\<rparr>"

definition ExceptionCheck :: "jni_thread \<Rightarrow> bool" where
  "ExceptionCheck t = exception_pending t"

definition ExceptionDescribe :: "jni_thread \<Rightarrow> jni_thread" where
  "ExceptionDescribe t = t\<lparr>exceptions_described := Suc (exceptions_described t)\<rparr>"

definition ExceptionClear :: "jni_thread \<Rightarrow> jni_thread" where
  "ExceptionClear t = t\<lparr>exception_pending := False\<rparr>"

subsection \<open>Global state of the platform adapter\<close>

text \<open>
  The entries of \<^verbatim>\<open>rac_platform_adapter_t\<close> are pointers to the static callbacks of
  the bridge, or null after \<^verbatim>\<open>memset\<close>.
\<close>

datatype c_callback =
    Ptr_jni_log_callback
  | Ptr_jni_file_exists_callback
  | Ptr_jni_file_read_callback
  | Ptr_jni_file_write_callback
  | Ptr_jni_file_delete_callback
  | Ptr_jni_secure_get_callback
  | Ptr_jni_secure_set_callback
  | Ptr_jni_secure_delete_callback
  | Ptr_jni_now_ms_callback

record rac_platform_adapter_t =
  adapter_log :: "c_callback option"
  adapter_file_exists :: "c_callback option"
  adapter_file_read :: "c_callback option"
  adapter_file_write :: "c_callback option"
  adapter_file_delete :: "c_callback option"
  adapter_secure_get :: "c_callback option"
  adapter_secure_set :: "c_callback option"
  adapter_secure_delete :: "c_callback option"
  adapter_now_ms :: "c_callback option"
  adapter_user_data :: "nat option"

definition zeroed_adapter :: rac_platform_adapter_t where
  "zeroed_adapter =
     \<lparr>adapter_log = None, adapter_file_exists = None, adapter_file_read = None,
      adapter_file_write = None, adapter_file_delete = None, adapter_secure_get = None,
      adapter_secure_set = None, adapter_secure_delete = None, adapter_now_ms = None,
      adapter_user_data = None\<rparr>"

record jni_globals =
  g_jvm :: bool
  g_platform_adapter :: "jobject option"
  g_method_log :: "jmethodID option"
  g_method_file_exists :: "jmethodID option"
  g_method_file_read :: "jmethodID option"
  g_method_file_write :: "jmethodID option"
  g_method_file_delete :: "jmethodID option"
  g_method_secure_get :: "jmethodID option"
  g_method_secure_set :: "jmethodID option"
  g_method_secure_delete :: "jmethodID option"
  g_method_now_ms :: "jmethodID option"
  g_c_adapter :: rac_platform_adapter_t

subsection \<open>\<^verbatim>\<open>racSetPlatformAdapter\<close>\<close>

definition racSetPlatformAdapter ::
  "jni_env \<Rightarrow> jni_globals \<Rightarrow> jobject option \<Rightarrow> rac_result_t \<times> jni_env \<times> jni_globals" where
  "racSetPlatformAdapter env g adapter =
     (case (case g_platform_adapter g of
              Some old \<Rightarrow> (DeleteGlobalRef env old, g\<lparr>g_platform_adapter := None\<rparr>)
            | None \<Rightarrow> (env, g)) of
        (env0, g0) \<Rightarrow>
          (case adapter of
             None \<Rightarrow> (RAC_ERROR_INVALID_ARGUMENT, env0, g0)
           | Some a \<Rightarrow>
              (case NewGlobalRef env0 a of (ref, env1) \<Rightarrow>
               let adapterClass = class_methods a in
               case GetMethodID env1 adapterClass ''log''
                      ''(ILjava/lang/String;Ljava/lang/String;)V'' of (m_log, env2) \<Rightarrow>
               case GetMethodID env2 adapterClass ''fileExists''
                      ''(Ljava/lang/String;)Z'' of (m_file_exists, env3) \<Rightarrow>
               case GetMethodID env3 adapterClass ''fileRead''
                      ''(Ljava/lang/String;)[B'' of (m_file_read, env4) \<Rightarrow>
               case GetMethodID env4 adapterClass ''fileWrite''
                      ''(Ljava/lang/String;[B)Z'' of (m_file_write, env5) \<Rightarrow>
               case GetMethodID env5 adapterClass ''fileDelete''
                      ''(Ljava/lang/String;)Z'' of (m_file_delete, env6) \<Rightarrow>
               case GetMethodID env6 adapterClass ''secureGet''
                      ''(Ljava/lang/String;)Ljava/lang/String;'' of (m_secure_get, env7) \<Rightarrow>
               case GetMethodID env7 adapterClass ''secureSet''
                      ''(Ljava/lang/String;Ljava/lang/String;)Z'' of (m_secure_set, env8) \<Rightarrow>
               case GetMethodID env8 adapterClass ''secureDelete''
                      ''(Ljava/lang/String;)Z'' of (m_secure_delete, env9) \<Rightarrow>
               case GetMethodID env9 adapterClass ''nowMs'' ''()J'' of (m_now_ms, env10) \<Rightarrow>
                 (RAC_SUCCESS, env10,
                  g0\<lparr>g_platform_adapter := Some ref,
                     g_method_log := m_log,
                     g_method_file_exists := m_file_exists,
                     g_method_file_read := m_file_read,
                     g_method_file_write := m_file_write,
                     g_method_file_delete := m_file_delete,
                     g_method_secure_get := m_secure_get,
                     g_method_secure_set := m_secure_set,
                     g_method_secure_delete := m_secure_delete,
                     g_method_now_ms := m_now_ms,
                     g_c_adapter :=
                       zeroed_adapter
                         \<lparr>adapter_log := Some Ptr_jni_log_callback,
                          adapter_file_exists := Some Ptr_jni_file_exists_callback,
                          adapter_file_read := Some Ptr_jni_file_read_callback,
                          adapter_file_write := Some Ptr_jni_file_write_callback,
                          adapter_file_delete := Some Ptr_jni_file_delete_callback,
                          adapter_secure_get := Some Ptr_jni_secure_get_callback,
                          adapter_secure_set := Some Ptr_jni_secure_set_callback,
                          adapter_secure_delete := Some Ptr_jni_secure_delete_callback,
                          adapter_now_ms := Some Ptr_jni_now_ms_callback,
                          adapter_user_data := None\<rparr>\<rparr>))))"

text \<open>
  What the claim about unresolved methods asks of an install, written after the
  specification: the install is refused and the vtable stays as it was.
\<close>

definition install_refused ::
  "jni_globals \<Rightarrow> rac_result_t \<times> jni_env \<times> jni_globals \<Rightarrow> bool" where
  "install_refused g r \<longleftrightarrow>
     fst r = RAC_ERROR_INVALID_ARGUMENT \<and> g_c_adapter (snd (snd r)) = g_c_adapter g"

subsection \<open>The platform adapter callbacks\<close>

text \<open>
  \<^verbatim>\<open>getJNIEnv\<close> yields the environment of the calling thread, attaching the thread
  when it is detached, or null.
\<close>

definition getJNIEnv :: "jni_globals \<Rightarrow> jni_thread \<Rightarrow> jni_thread option" where
  "getJNIEnv g t =
     (if \<not> g_jvm g then None
      else if GetEnv t = JNI_EDETACHED then
        (case AttachCurrentThread t of
           (JNI_OK, t') \<Rightarrow> Some t'
         | _ \<Rightarrow> None)
      else if GetEnv t = JNI_OK then Some t else None)"

text \<open>
  The implementation of the adapter in the managed runtime, one function for each
  method of the interface. The log method returns nothing; where a message ends up is
  what the log callback yields.
\<close>

record managed_adapter =
  m_fileExists :: "string \<Rightarrow> bool"
  m_fileRead :: "string \<Rightarrow> 8 word list option"
  m_fileWrite :: "string \<Rightarrow> 8 word list \<Rightarrow> bool"
  m_fileDelete :: "string \<Rightarrow> bool"
  m_secureGet :: "string \<Rightarrow> string option"
  m_secureSet :: "string \<Rightarrow> string \<Rightarrow> bool"
  m_secureDelete :: "string \<Rightarrow> bool"
  m_nowMs :: "64 word"

datatype log_route = Native_log string string | Managed_log int string string

definition or_else :: "cstr \<Rightarrow> string \<Rightarrow> string" where
  "or_else p d = (case p of None \<Rightarrow> d | Some s \<Rightarrow> s)"

definition jni_log_callback ::
  "jni_globals \<Rightarrow> jni_thread \<Rightarrow> int \<Rightarrow> cstr \<Rightarrow> cstr \<Rightarrow> log_route" where
  "jni_log_callback g t level tag message =
     (if getJNIEnv g t = None \<or> g_platform_adapter g = None \<or> g_method_log g = None
      then Native_log (or_else tag ''RAC'') (or_else message '''')
      else Managed_log level (or_else tag ''RAC'') (or_else message ''''))"

definition jni_file_exists_callback ::
  "jni_globals \<Rightarrow> jni_thread \<Rightarrow> managed_adapter \<Rightarrow> cstr \<Rightarrow> rac_bool_t" where
  "jni_file_exists_callback g t impl path =
     (if getJNIEnv g t = None \<or> g_platform_adapter g = None \<or> g_method_file_exists g = None
      then RAC_FALSE
      else if m_fileExists impl (or_else path '''') then RAC_TRUE else RAC_FALSE)"

text \<open>
  The read callback writes its two output cells only past the guard; \<open>None\<close> in the
  second component says that they were left alone.
\<close>

definition jni_file_read_callback ::
  "jni_globals \<Rightarrow> jni_thread \<Rightarrow> managed_adapter \<Rightarrow> cstr \<Rightarrow>
     rac_result_t \<times> (8 word list option \<times> nat) option" where
  "jni_file_read_callback g t impl path =
     (if getJNIEnv g t = None \<or> g_platform_adapter g = None \<or> g_method_file_read g = None
      then (RAC_ERROR_ADAPTER_NOT_SET, None)
      else
        (case m_fileRead impl (or_else path '''') of
           None \<Rightarrow> (RAC_ERROR_FILE_NOT_FOUND, Some (None, 0))
         | Some bytes \<Rightarrow> (RAC_SUCCESS, Some (Some bytes, length bytes))))"

definition jni_file_write_callback ::
  "jni_globals \<Rightarrow> jni_thread \<Rightarrow> managed_adapter \<Rightarrow> cstr \<Rightarrow> 8 word list \<Rightarrow> rac_result_t" where
  "jni_file_write_callback g t impl path bytes =
     (if getJNIEnv g t = None \<or> g_platform_adapter g = None \<or> g_method_file_write g = None
      then RAC_ERROR_ADAPTER_NOT_SET
      else if m_fileWrite impl (or_else path '''') bytes then RAC_SUCCESS
      else RAC_ERROR_FILE_WRITE_FAILED)"

definition jni_file_delete_callback ::
  "jni_globals \<Rightarrow> jni_thread \<Rightarrow> managed_adapter \<Rightarrow> cstr \<Rightarrow> rac_result_t" where
  "jni_file_delete_callback g t impl path =
     (if getJNIEnv g t = None \<or> g_platform_adapter g = None \<or> g_method_file_delete g = None
      then RAC_ERROR_ADAPTER_NOT_SET
      else if m_fileDelete impl (or_else path '''') then RAC_SUCCESS
      else RAC_ERROR_FILE_WRITE_FAILED)"

definition jni_secure_get_callback ::
  "jni_globals \<Rightarrow> jni_thread \<Rightarrow> managed_adapter \<Rightarrow> cstr \<Rightarrow> rac_result_t \<times> cstr option" where
  "jni_secure_get_callback g t impl key =
     (if getJNIEnv g t = None \<or> g_platform_adapter g = None \<or> g_method_secure_get g = None
      then (RAC_ERROR_ADAPTER_NOT_SET, None)
      else
        (case m_secureGet impl (or_else key '''') of
           None \<Rightarrow> (RAC_ERROR_NOT_FOUND, Some None)
         | Some v \<Rightarrow> (RAC_SUCCESS, Some (Some v))))"

definition jni_secure_set_callback ::
  "jni_globals \<Rightarrow> jni_thread \<Rightarrow> managed_adapter \<Rightarrow> cstr \<Rightarrow> cstr \<Rightarrow> rac_result_t" where
  "jni_secure_set_callback g t impl key val =
     (if getJNIEnv g t = None \<or> g_platform_adapter g = None \<or> g_method_secure_set g = None
      then RAC_ERROR_ADAPTER_NOT_SET
      else if m_secureSet impl (or_else key '''') (or_else val '''') then RAC_SUCCESS
      else RAC_ERROR_STORAGE_ERROR)"

definition jni_secure_delete_callback ::
  "jni_globals \<Rightarrow> jni_thread \<Rightarrow> managed_adapter \<Rightarrow> cstr \<Rightarrow> rac_result_t" where
  "jni_secure_delete_callback g t impl key =
     (if getJNIEnv g t = None \<or> g_platform_adapter g = None \<or> g_method_secure_delete g = None
      then RAC_ERROR_ADAPTER_NOT_SET
      else if m_secureDelete impl (or_else key '''') then RAC_SUCCESS
      else RAC_ERROR_STORAGE_ERROR)"

text \<open>\<open>system_seconds\<close> is what \<^verbatim>\<open>time(nullptr)\<close> returns.\<close>

definition jni_now_ms_callback ::
  "jni_globals \<Rightarrow> jni_thread \<Rightarrow> managed_adapter \<Rightarrow> 64 word \<Rightarrow> 64 word" where
  "jni_now_ms_callback g t impl system_seconds =
     (if getJNIEnv g t = None \<or> g_platform_adapter g = None \<or> g_method_now_ms g = None
      then system_seconds * 1000
      else m_nowMs impl)"

subsection \<open>Token callbacks of the streaming entry points\<close>

text \<open>
  The managed token sink: what \<^verbatim>\<open>onToken\<close> does with a token. It returns a boolean or
  throws; when it throws, \<^verbatim>\<open>CallBooleanMethod\<close> still hands some value back to the
  native caller, and the exception is pending on the thread.
\<close>

datatype call_outcome = Returns bool | Throws bool

type_synonym token_sink = "string \<Rightarrow> call_outcome"

definition CallBooleanMethod :: "jni_thread \<Rightarrow> token_sink \<Rightarrow> string \<Rightarrow> bool \<times> jni_thread" where
  "CallBooleanMethod t sink arg =
     (case sink arg of
        Returns b \<Rightarrow> (b, t)
      | Throws b \<Rightarrow> (b, t\<lparr>exception_pending := True\<rparr>))"

text \<open>
  Modelled from the spec: \<^verbatim>\<open>rac_llm_result_t\<close> and \<^verbatim>\<open>rac_vlm_result_t\<close> are declared
  in headers that are missing. The records have the metrics the bridge copies into the
  result documents of the specification; the token counts are kept as 32-bit and the
  times as 64-bit integers, a \<^verbatim>\<open>float\<close> as its bit pattern.
\<close>

record rac_llm_result_t =
  lr_completion_tokens :: "32 word"
  lr_prompt_tokens :: "32 word"
  lr_total_tokens :: "32 word"
  lr_total_time_ms :: "64 word"
  lr_tokens_per_second :: "32 word"

record rac_vlm_result_t =
  vr_prompt_tokens :: "32 word"
  vr_image_tokens :: "32 word"
  vr_completion_tokens :: "32 word"
  vr_total_tokens :: "32 word"
  vr_time_to_first_token_ms :: "64 word"
  vr_image_encode_time_ms :: "64 word"
  vr_total_time_ms :: "64 word"
  vr_tokens_per_second :: "32 word"

definition zero_llm_result :: rac_llm_result_t where
  "zero_llm_result =
     \<lparr>lr_completion_tokens = 0, lr_prompt_tokens = 0, lr_total_tokens = 0,
      lr_total_time_ms = 0, lr_tokens_per_second = 0\<rparr>"

definition zero_vlm_result :: rac_vlm_result_t where
  "zero_vlm_result =
     \<lparr>vr_prompt_tokens = 0, vr_image_tokens = 0, vr_completion_tokens = 0,
      vr_total_tokens = 0, vr_time_to_first_token_ms = 0, vr_image_encode_time_ms = 0,
      vr_total_time_ms = 0, vr_tokens_per_second = 0\<rparr>"


record LLMStreamCallbackContext =
  llm_jvm :: bool
  llm_callback :: "token_sink option"
  llm_onTokenMethod :: "jmethodID option"
  llm_onTokenExpectsBytes :: bool
  llm_accumulated_text :: string
  llm_token_count :: "32 word"
  llm_is_complete :: bool
  llm_has_error :: bool
  llm_error_code :: rac_result_t
  llm_error_message :: string
  llm_final_result :: rac_llm_result_t

record VLMStreamCallbackContext =
  vlm_jvm :: bool
  vlm_callback :: "token_sink option"
  vlm_onTokenMethod :: "jmethodID option"
  vlm_accumulated_text :: string
  vlm_token_count :: "32 word"
  vlm_is_complete :: bool
  vlm_has_error :: bool
  vlm_error_code :: rac_result_t
  vlm_error_message :: string
  vlm_final_result :: rac_vlm_result_t

text \<open>
  Both callbacks obtain the environment in the same way: the outcome is that the
  callback gives up (the attach failed), or whether a detach is due and the
  environment, which is null when \<^verbatim>\<open>GetEnv\<close> failed for another reason.
\<close>

definition stream_env :: "jni_thread \<Rightarrow> (bool \<times> jni_thread option) option" where
  "stream_env t =
     (if GetEnv t = JNI_EDETACHED then
        (case AttachCurrentThread t of
           (JNI_OK, t') \<Rightarrow> Some (True, Some t')
         | _ \<Rightarrow> None)
      else Some (False, if GetEnv t = JNI_OK then Some t else None))"

definition llm_stream_callback_token ::
  "LLMStreamCallbackContext option \<Rightarrow> cstr \<Rightarrow> jni_thread \<Rightarrow>
     rac_bool_t \<times> LLMStreamCallbackContext option \<times> jni_thread" where
  "llm_stream_callback_token user_data token t =
     (case (user_data, token) of
        (Some ctx0, Some tok) \<Rightarrow>
          let ctx = ctx0\<lparr>llm_accumulated_text := llm_accumulated_text ctx0 @ tok,
                        llm_token_count := llm_token_count ctx0 + 1\<rparr>
          in
          (case (llm_jvm ctx, llm_callback ctx, llm_onTokenMethod ctx) of
             (True, Some sink, Some _) \<Rightarrow>
               (case stream_env t of
                  None \<Rightarrow> (RAC_TRUE, Some ctx, t)
                | Some (needsDetach, None) \<Rightarrow> (RAC_TRUE, Some ctx, t)
                | Some (needsDetach, Some env) \<Rightarrow>
                    (case CallBooleanMethod env sink tok of
                       (continueGen, env1) \<Rightarrow>
                         let hadException = ExceptionCheck env1;
                             env2 = (if hadException
                                     then ExceptionClear (ExceptionDescribe env1) else env1);
                             env3 = (if needsDetach then DetachCurrentThread env2 else env2)
                         in if hadException then (RAC_TRUE, Some ctx, env3)
                            else if \<not> continueGen then (RAC_FALSE, Some ctx, env3)
                            else (RAC_TRUE, Some ctx, env3)))
           | _ \<Rightarrow> (RAC_TRUE, Some ctx, t))
      | _ \<Rightarrow> (RAC_TRUE, user_data, t))"

definition vlm_stream_callback_token ::
  "VLMStreamCallbackContext option \<Rightarrow> cstr \<Rightarrow> jni_thread \<Rightarrow>
     rac_bool_t \<times> VLMStreamCallbackContext option \<times> jni_thread" where
  "vlm_stream_callback_token user_data token t =
     (case (user_data, token) of
        (Some ctx0, Some tok) \<Rightarrow>
          let ctx = ctx0\<lparr>vlm_accumulated_text := vlm_accumulated_text ctx0 @ tok,
                        vlm_token_count := vlm_token_count ctx0 + 1\<rparr>
          in
          (case (vlm_jvm ctx, vlm_callback ctx, vlm_onTokenMethod ctx) of
             (True, Some sink, Some _) \<Rightarrow>
               (case stream_env t of
                  None \<Rightarrow> (RAC_TRUE, Some ctx, t)
                | Some (needsDetach, None) \<Rightarrow> (RAC_TRUE, Some ctx, t)
                | Some (needsDetach, Some env) \<Rightarrow>
                    (case CallBooleanMethod env sink tok of
                       (continueGen, env1) \<Rightarrow>
                         if ExceptionCheck env1 then
                           let env2 = ExceptionClear (ExceptionDescribe env1);
                               env3 = (if needsDetach then DetachCurrentThread env2 else env2)
                           in (RAC_FALSE, Some ctx, env3)
                         else
                           let env3 = (if needsDetach then DetachCurrentThread env1 else env1)
                           in if \<not> continueGen then (RAC_FALSE, Some ctx, env3)
                              else (RAC_TRUE, Some ctx, env3)))
           | _ \<Rightarrow> (RAC_TRUE, Some ctx, t))
      | _ \<Rightarrow> (RAC_TRUE, user_data, t))"

text \<open>
  The situation the claim about exceptions is about: the callback gets as far as
  calling \<^verbatim>\<open>onToken\<close> on the token, and \<^verbatim>\<open>onToken\<close> throws.
\<close>

definition reaches_sink :: "jni_thread \<Rightarrow> bool" where
  "reaches_sink t \<longleftrightarrow>
     GetEnv t = JNI_OK \<or> (GetEnv t = JNI_EDETACHED \<and> attach_succeeds t)"

definition throws_on :: "token_sink \<Rightarrow> string \<Rightarrow> bool" where
  "throws_on sink tok = (case sink tok of Throws _ \<Rightarrow> True | Returns _ \<Rightarrow> False)"

subsection \<open>JSON documents\<close>

text \<open>
  The values of \<^verbatim>\<open>nlohmann::json\<close> that the bridge builds. A \<^verbatim>\<open>float\<close> is kept as
  its bit pattern. Writing a document out (\<^verbatim>\<open>dump\<close>) belongs to the library and is a
  parameter of the functions that return text.
\<close>

datatype json =
    JNull
  | JBool bool
  | JInt int
  | JFloat "32 word"
  | JString string
  | JArray "json list"
  | JObject "(string \<times> json) list"

definition json_field :: "string \<Rightarrow> json \<Rightarrow> json option" where
  "json_field k j = (case j of JObject kvs \<Rightarrow> map_of kvs k | _ \<Rightarrow> None)"

subsection \<open>\<^verbatim>\<open>loraEntryToJson\<close>\<close>

text \<open>The loop that appends the slots that are not null to the array \<^verbatim>\<open>ids\<close>.\<close>

definition lora_ids_json :: "rac_lora_entry \<Rightarrow> json list" where
  "lora_ids_json entry =
     (case compatible_model_ids entry of
        None \<Rightarrow> []
      | Some ids \<Rightarrow>
          fold (\<lambda>i acc. case ids ! i of Some s \<Rightarrow> acc @ [JString s] | None \<Rightarrow> acc)
               [0..<compatible_model_count entry] [])"

definition lora_entry_json :: "rac_lora_entry \<Rightarrow> json" where
  "lora_entry_json entry =
     JObject
       [(''id'', JString (case lora_id entry of Some s \<Rightarrow> s | None \<Rightarrow> '''')),
        (''name'', JString (case name entry of Some s \<Rightarrow> s | None \<Rightarrow> '''')),
        (''description'', JString (case description entry of Some s \<Rightarrow> s | None \<Rightarrow> '''')),
        (''download_url'', JString (case download_url entry of Some s \<Rightarrow> s | None \<Rightarrow> '''')),
        (''filename'', JString (case filename entry of Some s \<Rightarrow> s | None \<Rightarrow> '''')),
        (''file_size'', JInt (sint (file_size entry))),
        (''default_scale'', JFloat (default_scale entry)),
        (''compatible_model_ids'', JArray (lora_ids_json entry))]"

definition loraEntryToJson :: "(json \<Rightarrow> string) \<Rightarrow> rac_lora_entry option \<Rightarrow> string" where
  "loraEntryToJson dump entry =
     (case entry of None \<Rightarrow> ''null'' | Some e \<Rightarrow> dump (lora_entry_json e))"

subsection \<open>\<^verbatim>\<open>modelInfoToJson\<close>\<close>

text \<open>
  Modelled from the spec: \<^verbatim>\<open>rac_model_info_t\<close> is declared in
  \<^verbatim>\<open>rac_model_types.h\<close>, which is missing. The record has the fields of the model
  entry of the specification, which are the fields \<^verbatim>\<open>modelInfoToJson\<close> reads; the
  three enumerations are cast to \<^verbatim>\<open>int\<close> there and kept as such.
\<close>

record rac_model_info_t =
  mi_id :: cstr
  mi_name :: cstr
  mi_category :: int
  mi_format :: int
  mi_framework :: int
  mi_download_url :: cstr
  mi_local_path :: cstr
  mi_download_size :: "64 word"
  mi_context_length :: "32 word"
  mi_supports_thinking :: rac_bool_t
  mi_supports_lora :: rac_bool_t
  mi_description :: cstr

definition nullable_json :: "cstr \<Rightarrow> json" where
  "nullable_json p = (case p of Some s \<Rightarrow> JString s | None \<Rightarrow> JNull)"

definition model_info_json :: "rac_model_info_t \<Rightarrow> json" where
  "model_info_json model =
     JObject
       [(''model_id'', JString (case mi_id model of Some s \<Rightarrow> s | None \<Rightarrow> '''')),
        (''name'', JString (case mi_name model of Some s \<Rightarrow> s | None \<Rightarrow> '''')),
        (''category'', JInt (mi_category model)),
        (''format'', JInt (mi_format model)),
        (''framework'', JInt (mi_framework model)),
        (''download_url'', nullable_json (mi_download_url model)),
        (''local_path'', nullable_json (mi_local_path model)),
        (''download_size'', JInt (sint (mi_download_size model))),
        (''context_length'', JInt (sint (mi_context_length model))),
        (''supports_thinking'', JBool (mi_supports_thinking model \<noteq> RAC_FALSE)),
        (''supports_lora'', JBool (mi_supports_lora model \<noteq> RAC_FALSE)),
        (''description'', nullable_json (mi_description model))]"

definition modelInfoToJson :: "(json \<Rightarrow> string) \<Rightarrow> rac_model_info_t option \<Rightarrow> string" where
  "modelInfoToJson dump model =
     (case model of None \<Rightarrow> ''null'' | Some m \<Rightarrow> dump (model_info_json m))"

subsection \<open>\<^verbatim>\<open>racToolCallParse\<close>\<close>

text \<open>
  Modelled from the spec: \<^verbatim>\<open>rac_tool_call_t\<close> and \<^verbatim>\<open>rac_tool_call_parse\<close> are
  declared in \<^verbatim>\<open>rac_tool_calling.h\<close>, which is missing. The record has the fields of
  the parse result of the specification, which are the fields the entry point reads;
  the parser itself is a parameter of the entry point.
\<close>

record rac_tool_call_t =
  has_tool_call :: rac_bool_t
  clean_text :: cstr
  tool_name :: cstr
  arguments_json :: cstr
  call_id :: int

text \<open>\<^verbatim>\<open>getCString\<close>: a null \<^verbatim>\<open>jstring\<close> reads as the empty string.\<close>

definition getCString :: "string option \<Rightarrow> string" where
  "getCString str = (case str of None \<Rightarrow> [] | Some s \<Rightarrow> s)"

text \<open>\<^verbatim>\<open>std::to_string\<close> on an integer: decimal digits, with a sign when negative.\<close>

fun decimal :: "nat \<Rightarrow> string" where
  "decimal n =
     (if n < 10 then [char_of (48 + n)]
      else decimal (n div 10) @ [char_of (48 + n mod 10)])"

declare decimal.simps [simp del]

definition to_string :: "int \<Rightarrow> string" where
  "to_string i = (if i < 0 then CHR ''-'' # decimal (nat (- i)) else decimal (nat i))"

text \<open>
  \<^verbatim>\<open>std::string::find_first_not_of\<close>: the position of the first character that is
  not in the given set, or \<^verbatim>\<open>npos\<close>.
\<close>

fun find_first_not_of :: "string \<Rightarrow> string \<Rightarrow> nat option" where
  "find_first_not_of [] chars = None"
| "find_first_not_of (c # cs) chars =
     (if c \<in> set chars then map_option Suc (find_first_not_of cs chars) else Some 0)"

text \<open>The loop that escapes the clean text.\<close>

definition escape_char :: "char \<Rightarrow> string" where
  "escape_char c =
     (if c = CHR 0x22 then [CHR 0x5C, CHR 0x22]
      else if c = CHR 0x5C then [CHR 0x5C, CHR 0x5C]
      else if c = CHR 0x0A then [CHR 0x5C, CHR ''n'']
      else if c = CHR 0x0D then [CHR 0x5C, CHR ''r'']
      else if c = CHR 0x09 then [CHR 0x5C, CHR ''t'']
      else [c])"

definition escape_text :: "string \<Rightarrow> string" where
  "escape_text s = fold (\<lambda>c json. json @ escape_char c) s []"

text \<open>The characters of \<^verbatim>\<open>" \t\n\r"\<close>.\<close>

definition leading_space :: string where
  "leading_space = [CHR '' '', CHR 0x09, CHR 0x0A, CHR 0x0D]"

text \<open>What the entry point appends after \<^verbatim>\<open>"argumentsJson":\<close>.\<close>

definition arguments_text :: "cstr \<Rightarrow> string" where
  "arguments_text arguments =
     (case arguments of
        Some args \<Rightarrow>
          (case find_first_not_of args leading_space of
             Some start \<Rightarrow>
               if args ! start = CHR ''{'' \<or> args ! start = CHR ''['' then args else ''{}''
           | None \<Rightarrow> ''{}'')
      | None \<Rightarrow> ''{}'')"

definition racToolCallParse ::
  "(string \<Rightarrow> rac_result_t \<times> rac_tool_call_t) \<Rightarrow> string option \<Rightarrow> string option" where
  \<open>racToolCallParse rac_tool_call_parse llmOutput =
     (case rac_tool_call_parse (getCString llmOutput) of
        (rc, result) \<Rightarrow>
          let json = ''{'' @ ''"hasToolCall":'' @
                     (if has_tool_call result = RAC_TRUE then ''true'' else ''false'') @
                     '',"cleanText":"'' @
                     (case clean_text result of Some s \<Rightarrow> escape_text s | None \<Rightarrow> []) @
                     ''"'';
              json' = (if has_tool_call result = RAC_TRUE then
                         json @ '',"toolName":"'' @
                         (case tool_name result of Some s \<Rightarrow> s | None \<Rightarrow> []) @
                         ''","argumentsJson":'' @
                         arguments_text (arguments_json result) @
                         '',"callId":'' @ to_string (call_id result)
                       else json)
          in Some (json' @ ''}''))\<close>

text \<open>
  The validation of the arguments in the words of the specification: strip the leading
  whitespace, look at the first byte that is left; keep the text unchanged when that
  byte opens an object or an array, and put \<^verbatim>\<open>{}\<close> in its place otherwise.
\<close>

definition is_space :: "char \<Rightarrow> bool" where
  "is_space c \<longleftrightarrow> c = CHR '' '' \<or> c = CHR 0x09 \<or> c = CHR 0x0A \<or> c = CHR 0x0D"

definition validated_arguments :: "cstr \<Rightarrow> string" where
  "validated_arguments arguments =
     (case arguments of
        None \<Rightarrow> ''{}''
      | Some args \<Rightarrow>
          (case dropWhile is_space args of
             [] \<Rightarrow> ''{}''
           | c # rest \<Rightarrow> if c = CHR ''{'' \<or> c = CHR ''['' then args else ''{}''))"

subsection \<open>The streaming entry points\<close>












section \<open>Concrete entries and registries used in the examples\<close>

definition s2_old :: rac_lora_entry where
  "s2_old = \<lparr>lora_id = Some ''l1'', name = None, description = None, download_url = None,
      filename = None, compatible_model_ids = None, compatible_model_count = 0,
      file_size = 0, default_scale = 0x3E99999A\<rparr>"

definition s2_new :: rac_lora_entry where
  "s2_new = \<lparr>lora_id = Some ''l1'', name = None, description = None, download_url = None,
      filename = None, compatible_model_ids = None, compatible_model_count = 0,
      file_size = 0, default_scale = 0x3F333333\<rparr>"

definition s2_registry :: rac_lora_registry where
  "s2_registry = \<lparr>entries = RBT.insert ''l1'' s2_old RBT.empty\<rparr>"

definition s1_l1 :: rac_lora_entry where
  "s1_l1 = \<lparr>lora_id = Some ''l1'', name = None, description = None, download_url = None,
      filename = None, compatible_model_ids = Some [Some ''mA'', Some ''mB''],
      compatible_model_count = 2, file_size = 0, default_scale = 0x3E99999A\<rparr>"

definition s1_l2 :: rac_lora_entry where
  "s1_l2 = \<lparr>lora_id = Some ''l2'', name = None, description = None, download_url = None,
      filename = None, compatible_model_ids = Some [Some ''mB''],
      compatible_model_count = 1, file_size = 0, default_scale = 0\<rparr>"

definition s1_registry :: rac_lora_registry where
  "s1_registry = \<lparr>entries = RBT.insert ''l2'' s1_l2 (RBT.insert ''l1'' s1_l1 RBT.empty)\<rparr>"


definition null_slots_entry :: rac_lora_entry where
  "null_slots_entry = \<lparr>lora_id = Some ''l9'', name = None, description = None,
      download_url = None, filename = None,
      compatible_model_ids = Some [None, Some ''mA'', None, Some ''mA''],
      compatible_model_count = 4, file_size = 0, default_scale = 0\<rparr>"

definition throwing_sink :: token_sink where
  "throwing_sink = (\<lambda>tok. Throws True)"

definition llm_ctx0 :: LLMStreamCallbackContext where
  "llm_ctx0 = \<lparr>llm_jvm = True, llm_callback = Some throwing_sink,
      llm_onTokenMethod = Some (''onToken'', ''([B)Z''), llm_onTokenExpectsBytes = True,
      llm_accumulated_text = [], llm_token_count = 0, llm_is_complete = False,
      llm_has_error = False, llm_error_code = RAC_SUCCESS, llm_error_message = [],
      llm_final_result = zero_llm_result\<rparr>"

definition vlm_ctx0 :: VLMStreamCallbackContext where
  "vlm_ctx0 = \<lparr>vlm_jvm = True, vlm_callback = Some throwing_sink,
      vlm_onTokenMethod = Some (''onToken'', ''([B)Z''),
      vlm_accumulated_text = [], vlm_token_count = 0, vlm_is_complete = False,
      vlm_has_error = False, vlm_error_code = RAC_SUCCESS, vlm_error_message = [],
      vlm_final_result = zero_vlm_result\<rparr>"

definition worker_thread :: jni_thread where
  "worker_thread = \<lparr>attached = False, attach_succeeds = True, version_supported = True,
      exception_pending = False, exceptions_described = 0\<rparr>"

definition adapter_without_nowMs :: jobject where
  "adapter_without_nowMs =
     \<lparr>object_id = 1,
      class_methods =
        [(''log'', ''(ILjava/lang/String;Ljava/lang/String;)V''),
         (''fileExists'', ''(Ljava/lang/String;)Z''),
         (''fileRead'', ''(Ljava/lang/String;)[B''),
         (''fileWrite'', ''(Ljava/lang/String;[B)Z''),
         (''fileDelete'', ''(Ljava/lang/String;)Z''),
         (''secureGet'', ''(Ljava/lang/String;)Ljava/lang/String;''),
         (''secureSet'', ''(Ljava/lang/String;Ljava/lang/String;)Z''),
         (''secureDelete'', ''(Ljava/lang/String;)Z'')]\<rparr>"

definition initial_env :: jni_env where
  "initial_env = \<lparr>global_refs = [], pending_exception = False\<rparr>"

definition initial_globals :: jni_globals where
  "initial_globals =
     \<lparr>g_jvm = True, g_platform_adapter = None, g_method_log = None,
      g_method_file_exists = None, g_method_file_read = None, g_method_file_write = None,
      g_method_file_delete = None, g_method_secure_get = None, g_method_secure_set = None,
      g_method_secure_delete = None, g_method_now_ms = None, g_c_adapter = zeroed_adapter\<rparr>"

definition installed_globals :: jni_globals where
  "installed_globals =
     snd (snd (racSetPlatformAdapter initial_env initial_globals (Some adapter_without_nowMs)))"

definition tool_call_spaced :: rac_tool_call_t where
  \<open>tool_call_spaced =
     \<lparr>has_tool_call = RAC_TRUE, clean_text = Some ''ok'', tool_name = Some ''get_weather'',
      arguments_json = Some '' {"city":"Oslo"}'', call_id = 7\<rparr>\<close>

definition tool_call_bare :: rac_tool_call_t where
  "tool_call_bare =
     \<lparr>has_tool_call = RAC_TRUE, clean_text = Some ''ok'', tool_name = Some ''get_weather'',
      arguments_json = Some ''Oslo'', call_id = 7\<rparr>"









section \<open>Properties of the allocator and of deep copies\<close>

lemma alloc_live: "alloc h = (ok, h') \<Longrightarrow> live h' = live h + (if ok then 1 else 0)"
  by (auto simp: alloc_def split: list.splits)

lemma alloc_plan_nil: "plan h = [] \<Longrightarrow> \<exists>h'. alloc h = (True, h') \<and> plan h' = []"
  by (simp add: alloc_def)

lemma rac_strdup_result:
  "rac_strdup h s = (c, h') \<Longrightarrow> (c = s \<or> c = None) \<and> live h' = live h + str_blocks c"
  by (auto simp: rac_strdup_def str_blocks_def dest: alloc_live split: option.splits prod.splits bool.splits)

lemma rac_strdup_plan_nil: "plan h = [] \<Longrightarrow> \<exists>h'. rac_strdup h s = (s, h') \<and> plan h' = []"
  using alloc_plan_nil [of h] by (auto simp: rac_strdup_def split: option.splits)

lemma free_str_live: "live (free_str h p) = live h - str_blocks p"
  by (simp add: free_str_def c_free_def str_blocks_def)

lemma free_str_plan: "plan (free_str h p) = plan h"
  by (simp add: free_str_def c_free_def)

lemma free_fold_live:
  "live (fold (\<lambda>i hh. free_str hh (ids ! i)) js h) = live h - (\<Sum>i\<leftarrow>js. str_blocks (ids ! i))"
  by (induction js arbitrary: h) (simp_all add: free_str_live)

lemma free_fold_plan:
  "plan (fold (\<lambda>i hh. free_str hh (ids ! i)) js h) = plan h"
  by (induction js arbitrary: h) (simp_all add: free_str_plan)

lemma free_lora_entry_live: "live (free_lora_entry h (Some e)) = live h - blocks e"
  by (simp add: free_lora_entry_def blocks_def Let_def free_str_live free_fold_live c_free_def
      split: option.splits)

lemma free_lora_entry_plan: "plan (free_lora_entry h p) = plan h"
  by (simp add: free_lora_entry_def Let_def free_str_plan free_fold_plan c_free_def
      split: option.splits)

lemma copy_model_ids_props:
  "copy_model_ids src n i dst h = (ok, dst', h') \<Longrightarrow> length dst = n \<Longrightarrow>
   length dst' = n \<and>
   (\<forall>j. j < i \<longrightarrow> dst' ! j = dst ! j) \<and>
   (\<forall>j. i \<le> j \<and> j < n \<longrightarrow> dst' ! j = src ! j \<or> dst' ! j = dst ! j \<or> dst' ! j = None) \<and>
   (ok \<longrightarrow> (\<forall>j. i \<le> j \<and> j < n \<longrightarrow> dst' ! j = src ! j))"
proof (induction src n i dst h rule: copy_model_ids.induct)
  case (1 src n i dst h)
  show ?case
  proof (cases "i < n")
    case False
    with "1.prems" show ?thesis by (auto simp: copy_model_ids.simps [of src n i dst h])
  next
    case True
    obtain c h1 where sd: "rac_strdup h (src ! i) = (c, h1)" by force
    from rac_strdup_result [OF sd] have c: "c = src ! i \<or> c = None" by simp
    show ?thesis
    proof (cases "src ! i \<noteq> None \<and> c = None")
      case True
      with \<open>i < n\<close> sd "1.prems" have "ok = False" "dst' = dst[i := c]" "h' = h1"
        by (simp_all add: copy_model_ids.simps [of src n i dst h])
      with "1.prems" True show ?thesis by (auto simp: nth_list_update)
    next
      case False
      with \<open>i < n\<close> sd "1.prems"
      have rec: "copy_model_ids src n (Suc i) (dst[i := c]) h1 = (ok, dst', h')"
        by (auto simp: copy_model_ids.simps [of src n i dst h] split: if_splits)
      from False c have ci: "c = src ! i" by auto
      have IH: "length dst' = n \<and>
         (\<forall>j. j < Suc i \<longrightarrow> dst' ! j = dst[i := c] ! j) \<and>
         (\<forall>j. Suc i \<le> j \<and> j < n \<longrightarrow> dst' ! j = src ! j \<or> dst' ! j = dst[i := c] ! j \<or> dst' ! j = None) \<and>
         (ok \<longrightarrow> (\<forall>j. Suc i \<le> j \<and> j < n \<longrightarrow> dst' ! j = src ! j))"
        using "1.IH" [OF \<open>i < n\<close> sd [symmetric] False rec] "1.prems"(2) by simp
      have di: "dst' ! i = src ! i"
        using IH \<open>i < n\<close> "1.prems"(2) ci by (simp add: nth_list_update)
      show ?thesis
      proof (intro conjI allI impI)
        show "length dst' = n" using IH by simp
      next
        fix j assume "j < i"
        then show "dst' ! j = dst ! j" using IH by (simp add: nth_list_update)
      next
        fix j assume "i \<le> j \<and> j < n"
        then show "dst' ! j = src ! j \<or> dst' ! j = dst ! j \<or> dst' ! j = None"
          using IH di by (cases "j = i") (auto simp: nth_list_update)
      next
        fix j assume "ok" "i \<le> j \<and> j < n"
        then show "dst' ! j = src ! j"
          using IH di by (cases "j = i") auto
      qed
    qed
  qed
qed

lemma copy_model_ids_live:
  "copy_model_ids src n i dst h = (ok, dst', h') \<Longrightarrow> length dst = n \<Longrightarrow>
   (\<forall>j. i \<le> j \<and> j < n \<longrightarrow> dst ! j = None) \<Longrightarrow>
   live h' = live h + (\<Sum>j\<leftarrow>[i..<n]. str_blocks (dst' ! j))"
proof (induction src n i dst h rule: copy_model_ids.induct)
  case (1 src n i dst h)
  show ?case
  proof (cases "i < n")
    case False
    with "1.prems" show ?thesis by (simp add: copy_model_ids.simps [of src n i dst h])
  next
    case True
    obtain c h1 where sd: "rac_strdup h (src ! i) = (c, h1)" by force
    from rac_strdup_result [OF sd] have lv: "live h1 = live h + str_blocks c" by simp
    have upt: "[i..<n] = i # [Suc i..<n]" using True by (simp add: upt_conv_Cons)
    show ?thesis
    proof (cases "src ! i \<noteq> None \<and> c = None")
      case T: True
      with \<open>i < n\<close> sd "1.prems" have eq: "ok = False" "dst' = dst[i := c]" "h' = h1"
        by (simp_all add: copy_model_ids.simps [of src n i dst h])
      have "(\<Sum>j\<leftarrow>[Suc i..<n]. str_blocks (dst' ! j)) = (\<Sum>j\<leftarrow>[Suc i..<n]. 0)"
        by (rule arg_cong [where f = sum_list], rule map_cong)
           (use eq "1.prems" in \<open>auto simp: str_blocks_def nth_list_update\<close>)
      then show ?thesis using eq lv True "1.prems"(2) upt by (simp add: nth_list_update)
    next
      case False
      with \<open>i < n\<close> sd "1.prems"
      have rec: "copy_model_ids src n (Suc i) (dst[i := c]) h1 = (ok, dst', h')"
        by (auto simp: copy_model_ids.simps [of src n i dst h] split: if_splits)
      have len: "length (dst[i := c]) = n" using "1.prems" by simp
      have nul: "\<forall>j. Suc i \<le> j \<and> j < n \<longrightarrow> dst[i := c] ! j = None"
        using "1.prems" by (auto simp: nth_list_update)
      have IH: "live h' = live h1 + (\<Sum>j\<leftarrow>[Suc i..<n]. str_blocks (dst' ! j))"
        using "1.IH" [OF \<open>i < n\<close> sd [symmetric] False rec len nul] .
      from copy_model_ids_props [OF rec len] have "dst' ! i = dst[i := c] ! i" by simp
      then have "dst' ! i = c" using True "1.prems"(2) by simp
      then show ?thesis using IH lv upt by simp
    qed
  qed
qed

lemma copy_model_ids_plan_nil:
  "plan h = [] \<Longrightarrow> \<exists>dst' h'. copy_model_ids src n i dst h = (True, dst', h') \<and> plan h' = []"
proof (induction src n i dst h rule: copy_model_ids.induct)
  case (1 src n i dst h)
  show ?case
  proof (cases "i < n")
    case False
    with "1.prems" show ?thesis by (simp add: copy_model_ids.simps [of src n i dst h])
  next
    case True
    from rac_strdup_plan_nil [OF "1.prems"]
    obtain h1 where sd: "rac_strdup h (src ! i) = (src ! i, h1)" and p1: "plan h1 = []" by blast
    have "\<not> (src ! i \<noteq> None \<and> src ! i = None)" by auto
    from "1.IH" [OF True sd [symmetric] this p1]
    obtain dst' h' where "copy_model_ids src n (Suc i) (dst[i := src ! i]) h1 = (True, dst', h')" "plan h' = []"
      by blast
    with True sd show ?thesis by (auto simp: copy_model_ids.simps [of src n i dst h])
  qed
qed

lemma deep_copy_null: "deep_copy_lora_entry h None = (None, h)"
  by (simp add: deep_copy_lora_entry_def)

lemma deep_copy_cases:
  assumes dc: "deep_copy_lora_entry h (Some src) = (r, h')"
  shows "(r = None \<and> live h' = live h) \<or>
         (\<exists>c. r = Some c \<and> live h' = live h + blocks c \<and>
              lora_id c = lora_id src \<and> name c = name src \<and>
              description c = description src \<and> download_url c = download_url src \<and>
              filename c = filename src \<and> file_size c = file_size src \<and>
              default_scale c = default_scale src \<and>
              (case compatible_model_ids src of
                 None \<Rightarrow> compatible_model_ids c = None \<and> compatible_model_count c = 0
               | Some ids \<Rightarrow>
                   if compatible_model_count src > 0
                   then compatible_model_count c = compatible_model_count src \<and>
                        (\<exists>dst. compatible_model_ids c = Some dst \<and>
                           length dst = compatible_model_count src \<and>
                           (\<forall>j < compatible_model_count src. dst ! j = ids ! j))
                   else compatible_model_ids c = None \<and> compatible_model_count c = 0))"
proof -
  obtain ok0 h0 where a0: "alloc h = (ok0, h0)" by force
  obtain c1 h1 where s1: "rac_strdup h0 (lora_id src) = (c1, h1)" by force
  obtain c2 h2 where s2: "rac_strdup h1 (name src) = (c2, h2)" by force
  obtain c3 h3 where s3: "rac_strdup h2 (description src) = (c3, h3)" by force
  obtain c4 h4 where s4: "rac_strdup h3 (download_url src) = (c4, h4)" by force
  obtain c5 h5 where s5: "rac_strdup h4 (filename src) = (c5, h5)" by force
  obtain ok6 h6 where a6: "alloc h5 = (ok6, h6)" by force
  note l0 = alloc_live [OF a0]
  note r1 = rac_strdup_result [OF s1] and r2 = rac_strdup_result [OF s2]
    and r3 = rac_strdup_result [OF s3] and r4 = rac_strdup_result [OF s4]
    and r5 = rac_strdup_result [OF s5]
  note l6 = alloc_live [OF a6]
  define copy where "copy = calloc_entry\<lparr>lora_id := c1, name := c2, description := c3,
                           download_url := c4, filename := c5\<rparr>"
  have bc: "blocks copy = str_blocks c1 + str_blocks c2 + str_blocks c3 + str_blocks c4 + str_blocks c5 + 1"
    by (simp add: copy_def blocks_def calloc_entry_def)
  have lv5: "live h5 = live h0 + str_blocks c1 + str_blocks c2 + str_blocks c3 + str_blocks c4 + str_blocks c5"
    using r1 r2 r3 r4 r5 by simp
  show ?thesis
  proof (cases ok0)
    case False
    with dc a0 l0 show ?thesis by (simp add: deep_copy_lora_entry_def)
  next
    case ok0: True
    show ?thesis
    proof (cases "(lora_id src \<noteq> None \<and> c1 = None) \<or> (name src \<noteq> None \<and> c2 = None) \<or>
                   (description src \<noteq> None \<and> c3 = None) \<or>
                   (download_url src \<noteq> None \<and> c4 = None) \<or>
                   (filename src \<noteq> None \<and> c5 = None)")
      case True
      then have "r = None" "h' = free_lora_entry h5 (Some copy)"
        using dc a0 ok0 s1 s2 s3 s4 s5
        by (simp_all add: deep_copy_lora_entry_def copy_def del: not_None_eq)
      then show ?thesis using lv5 l0 ok0 bc by (simp add: free_lora_entry_live)
    next
      case strs: False
      then have eqs: "c1 = lora_id src" "c2 = name src" "c3 = description src"
        "c4 = download_url src" "c5 = filename src"
        using r1 r2 r3 r4 r5 by auto
      have simple: "compatible_model_ids src = None \<or> \<not> compatible_model_count src > 0 \<Longrightarrow>
        r = Some (copy\<lparr>file_size := file_size src, default_scale := default_scale src\<rparr>) \<and> h' = h5"
        using dc a0 ok0 s1 s2 s3 s4 s5 strs
        by (auto simp add: deep_copy_lora_entry_def copy_def Let_def simp del: not_None_eq
            split: option.splits)
      show ?thesis
      proof (cases "compatible_model_ids src")
        case None
        with simple have "r = Some (copy\<lparr>file_size := file_size src, default_scale := default_scale src\<rparr>)" "h' = h5"
          by simp_all
        then show ?thesis using None lv5 l0 ok0 eqs
          by (simp add: blocks_def copy_def calloc_entry_def)
      next
        case (Some ids)
        show ?thesis
        proof (cases "compatible_model_count src > 0")
          case False
          with simple have "r = Some (copy\<lparr>file_size := file_size src, default_scale := default_scale src\<rparr>)" "h' = h5"
            by simp_all
          then show ?thesis using Some False lv5 l0 ok0 eqs
            by (simp add: blocks_def copy_def calloc_entry_def)
        next
          case pos: True
          define n where "n = compatible_model_count src"
          obtain ok dst h7 where cp: "copy_model_ids ids n 0 (replicate n None) h6 = (ok, dst, h7)"
            by (metis prod_cases3)
          have len: "length (replicate n (None :: cstr)) = n" by simp
          note pr = copy_model_ids_props [OF cp len]
          have "live h7 = live h6 + (\<Sum>j\<leftarrow>[0..<n]. str_blocks (dst ! j))"
            by (rule copy_model_ids_live [OF cp len]) simp
          note lv7 = this
          define copy' where "copy' = copy\<lparr>compatible_model_ids := Some dst, compatible_model_count := n\<rparr>"
          have bc': "blocks copy' = blocks copy + (\<Sum>j\<leftarrow>[0..<n]. str_blocks (dst ! j)) + 1"
            by (simp add: copy'_def copy_def blocks_def calloc_entry_def)
          show ?thesis
          proof (cases ok6)
            case False
            then have "r = None" "h' = free_lora_entry h6 (Some copy)"
              using dc a0 ok0 s1 s2 s3 s4 s5 strs Some pos a6
              by (simp_all add: deep_copy_lora_entry_def copy_def Let_def del: not_None_eq)
            then show ?thesis using lv5 l0 l6 False ok0 bc by (simp add: free_lora_entry_live)
          next
            case ok6: True
            show ?thesis
            proof (cases ok)
              case False
              then have "r = None" "h' = free_lora_entry h7 (Some copy')"
                using dc a0 ok0 s1 s2 s3 s4 s5 strs Some pos a6 ok6 cp
                by (simp_all add: deep_copy_lora_entry_def copy_def copy'_def n_def Let_def del: not_None_eq)
              then show ?thesis using lv5 l0 l6 lv7 ok6 ok0 bc bc' by (simp add: free_lora_entry_live)
            next
              case True
              then have res: "r = Some (copy'\<lparr>file_size := file_size src, default_scale := default_scale src\<rparr>)" "h' = h7"
                using dc a0 ok0 s1 s2 s3 s4 s5 strs Some pos a6 ok6 cp
                by (simp_all add: deep_copy_lora_entry_def copy_def copy'_def n_def Let_def del: not_None_eq)
              have "blocks (copy'\<lparr>file_size := file_size src, default_scale := default_scale src\<rparr>) = blocks copy'"
                by (simp add: blocks_def split: option.splits)
              moreover have "\<forall>j<n. dst ! j = ids ! j" using pr True by simp
              moreover have "length dst = n" using pr by simp
              ultimately show ?thesis using res Some pos lv5 l0 l6 lv7 ok6 ok0 bc bc' eqs
                by (simp add: copy'_def copy_def calloc_entry_def n_def)
            qed
          qed
        qed
      qed
    qed
  qed
qed

lemma deep_copy_fail_live:
  "deep_copy_lora_entry h src = (None, h') \<Longrightarrow> live h' = live h"
proof (cases src)
  case None
  then show "deep_copy_lora_entry h src = (None, h') \<Longrightarrow> live h' = live h"
    by (simp add: deep_copy_null)
next
  case (Some s)
  assume "deep_copy_lora_entry h src = (None, h')"
  with Some deep_copy_cases [of h s None h'] show "live h' = live h" by simp
qed

lemma deep_copy_success:
  assumes "deep_copy_lora_entry h (Some src) = (Some c, h')"
  shows "same_fields c src" and "valid_entry c" and "live h' = live h + blocks c"
proof -
  note dc = deep_copy_cases [OF assms]
  show "live h' = live h + blocks c" using dc by auto
  show "valid_entry c" using dc
    by (auto simp: valid_entry_def split: option.splits if_splits)
  have "model_ids_of c = model_ids_of src"
    using dc by (auto simp: model_ids_of_def split: option.splits if_splits)
  then show "same_fields c src" using dc by (auto simp: same_fields_def)
qed

lemma deep_copy_plan_nil:
  assumes "plan h = []"
  shows "\<exists>c h'. deep_copy_lora_entry h (Some src) = (Some c, h') \<and> plan h' = []"
proof -
  from alloc_plan_nil [OF assms] obtain h0 where a0: "alloc h = (True, h0)" and p0: "plan h0 = []" by blast
  from rac_strdup_plan_nil [OF p0] obtain h1 where s1: "rac_strdup h0 (lora_id src) = (lora_id src, h1)" and p1: "plan h1 = []" by blast
  from rac_strdup_plan_nil [OF p1] obtain h2 where s2: "rac_strdup h1 (name src) = (name src, h2)" and p2: "plan h2 = []" by blast
  from rac_strdup_plan_nil [OF p2] obtain h3 where s3: "rac_strdup h2 (description src) = (description src, h3)" and p3: "plan h3 = []" by blast
  from rac_strdup_plan_nil [OF p3] obtain h4 where s4: "rac_strdup h3 (download_url src) = (download_url src, h4)" and p4: "plan h4 = []" by blast
  from rac_strdup_plan_nil [OF p4] obtain h5 where s5: "rac_strdup h4 (filename src) = (filename src, h5)" and p5: "plan h5 = []" by blast
  from alloc_plan_nil [OF p5] obtain h6 where a6: "alloc h5 = (True, h6)" and p6: "plan h6 = []" by blast
  show ?thesis
  proof (cases "compatible_model_ids src")
    case None
    then show ?thesis using a0 s1 s2 s3 s4 s5 p5
      by (simp add: deep_copy_lora_entry_def Let_def del: not_None_eq)
  next
    case (Some ids)
    from copy_model_ids_plan_nil [OF p6]
    obtain dst h7 where "copy_model_ids ids (compatible_model_count src) 0
        (replicate (compatible_model_count src) None) h6 = (True, dst, h7)" "plan h7 = []" by blast
    then show ?thesis using Some a0 s1 s2 s3 s4 s5 p5 a6
      by (simp add: deep_copy_lora_entry_def Let_def del: not_None_eq)
  qed
qed

subsection \<open>Which allocations a copy consumes\<close>

lemma no_failure_0: "no_failure 0 h"
  by (simp add: no_failure_def)

lemma no_failure_add:
  "plan h1 = drop a (plan h) \<Longrightarrow>
   no_failure (a + b) h \<longleftrightarrow> no_failure a h \<and> no_failure b h1"
  by (auto simp: no_failure_def take_add)

lemma alloc_plan:
  "alloc h = (ok, h') \<Longrightarrow> plan h' = drop 1 (plan h) \<and> (ok \<longleftrightarrow> no_failure 1 h)"
  by (auto simp: alloc_def no_failure_def split: list.splits)

lemma rac_strdup_plan:
  "rac_strdup h s = (c, h') \<Longrightarrow>
   plan h' = drop (str_allocations s) (plan h) \<and>
   (\<not> (s \<noteq> None \<and> c = None) \<longleftrightarrow> no_failure (str_allocations s) h)"
proof (cases s)
  case None
  then show "rac_strdup h s = (c, h') \<Longrightarrow> ?thesis"
    by (auto simp: rac_strdup_def str_allocations_def no_failure_def)
next
  case (Some str)
  assume r: "rac_strdup h s = (c, h')"
  obtain ok h1 where a: "alloc h = (ok, h1)" by force
  from alloc_plan [OF a] a r Some show ?thesis
    by (cases ok) (auto simp: rac_strdup_def str_allocations_def)
qed

lemma copy_model_ids_plan:
  "copy_model_ids src n i dst h = (ok, dst', h') \<Longrightarrow>
   (ok \<longleftrightarrow> no_failure (\<Sum>j\<leftarrow>[i..<n]. str_allocations (src ! j)) h) \<and>
   (ok \<longrightarrow> plan h' = drop (\<Sum>j\<leftarrow>[i..<n]. str_allocations (src ! j)) (plan h))"
proof (induction src n i dst h rule: copy_model_ids.induct)
  case (1 src n i dst h)
  show ?case
  proof (cases "i < n")
    case False
    with "1.prems" show ?thesis
      by (auto simp: copy_model_ids.simps [of src n i dst h] no_failure_0)
  next
    case True
    obtain c h1 where sd: "rac_strdup h (src ! i) = (c, h1)" by force
    note sp = rac_strdup_plan [OF sd]
    have upt: "[i..<n] = i # [Suc i..<n]" using True by (simp add: upt_conv_Cons)
    let ?k = "\<Sum>j\<leftarrow>[Suc i..<n]. str_allocations (src ! j)"
    have sum: "(\<Sum>j\<leftarrow>[i..<n]. str_allocations (src ! j)) = str_allocations (src ! i) + ?k"
      by (simp add: upt)
    have nf: "no_failure (str_allocations (src ! i) + ?k) h \<longleftrightarrow>
              no_failure (str_allocations (src ! i)) h \<and> no_failure ?k h1"
      using sp by (intro no_failure_add) simp
    show ?thesis
    proof (cases "src ! i \<noteq> None \<and> c = None")
      case fail: True
      with True sd "1.prems" have "ok = False"
        by (simp add: copy_model_ids.simps [of src n i dst h])
      moreover from fail sp have "\<not> no_failure (str_allocations (src ! i)) h" by blast
      ultimately show ?thesis using sum nf by simp
    next
      case False
      with True sd "1.prems"
      have rec: "copy_model_ids src n (Suc i) (dst[i := c]) h1 = (ok, dst', h')"
        by (auto simp: copy_model_ids.simps [of src n i dst h] split: if_splits)
      note IH = "1.IH" [OF True sd [symmetric] False rec]
      from False sp have ok1: "no_failure (str_allocations (src ! i)) h" by blast
      have "ok \<longleftrightarrow> no_failure (str_allocations (src ! i) + ?k) h"
        using IH ok1 nf by simp
      moreover have "plan h' = drop (str_allocations (src ! i) + ?k) (plan h)" if ok
        using IH that sp by (simp add: add.commute)
      ultimately show ?thesis using sum by simp
    qed
  qed
qed

lemma no_failure_mono: "no_failure (a + b) h \<Longrightarrow> no_failure a h"
  by (auto simp: no_failure_def take_add)

lemma deep_copy_plan:
  assumes dc: "deep_copy_lora_entry h (Some src) = (r, h')"
  shows "(r \<noteq> None \<longleftrightarrow> no_failure (copy_allocations src) h) \<and>
         (r \<noteq> None \<longrightarrow> plan h' = drop (copy_allocations src) (plan h))"
proof -
  obtain ok0 h0 where a0: "alloc h = (ok0, h0)" by force
  obtain c1 h1 where s1: "rac_strdup h0 (lora_id src) = (c1, h1)" by force
  obtain c2 h2 where s2: "rac_strdup h1 (name src) = (c2, h2)" by force
  obtain c3 h3 where s3: "rac_strdup h2 (description src) = (c3, h3)" by force
  obtain c4 h4 where s4: "rac_strdup h3 (download_url src) = (c4, h4)" by force
  obtain c5 h5 where s5: "rac_strdup h4 (filename src) = (c5, h5)" by force
  obtain ok6 h6 where a6: "alloc h5 = (ok6, h6)" by force
  define n1 n2 n3 n4 n5 where "n1 = str_allocations (lora_id src)"
    and "n2 = str_allocations (name src)" and "n3 = str_allocations (description src)"
    and "n4 = str_allocations (download_url src)" and "n5 = str_allocations (filename src)"
  define S where "S = 1 + n1 + n2 + n3 + n4 + n5"
  note p0 = alloc_plan [OF a0]
  note p1 = rac_strdup_plan [OF s1, folded n1_def] and p2 = rac_strdup_plan [OF s2, folded n2_def]
    and p3 = rac_strdup_plan [OF s3, folded n3_def] and p4 = rac_strdup_plan [OF s4, folded n4_def]
    and p5 = rac_strdup_plan [OF s5, folded n5_def]
  note p6 = alloc_plan [OF a6]
  have d0: "plan h0 = drop 1 (plan h)" using p0 by simp
  have d1: "plan h1 = drop (1 + n1) (plan h)" using p1 d0 by (simp add: add.commute)
  have d2: "plan h2 = drop (1 + n1 + n2) (plan h)" using p2 d1 by (simp add: add.commute)
  have d3: "plan h3 = drop (1 + n1 + n2 + n3) (plan h)" using p3 d2 by (simp add: add.commute)
  have d4: "plan h4 = drop (1 + n1 + n2 + n3 + n4) (plan h)" using p4 d3 by (simp add: add.commute)
  have d5: "plan h5 = drop S (plan h)" using p5 d4 by (simp add: add.commute S_def)
  have nfS: "no_failure S h \<longleftrightarrow>
      no_failure 1 h \<and> no_failure n1 h0 \<and> no_failure n2 h1 \<and> no_failure n3 h2 \<and>
      no_failure n4 h3 \<and> no_failure n5 h4"
    unfolding S_def
    using no_failure_add [OF d0, of n1] no_failure_add [OF d1, of n2]
      no_failure_add [OF d2, of n3] no_failure_add [OF d3, of n4] no_failure_add [OF d4, of n5]
    by blast
  let ?bad = "(lora_id src \<noteq> None \<and> c1 = None) \<or> (name src \<noteq> None \<and> c2 = None) \<or>
                   (description src \<noteq> None \<and> c3 = None) \<or>
                   (download_url src \<noteq> None \<and> c4 = None) \<or>
                   (filename src \<noteq> None \<and> c5 = None)"
  have good: "\<not> ?bad \<longleftrightarrow> no_failure n1 h0 \<and> no_failure n2 h1 \<and> no_failure n3 h2 \<and>
      no_failure n4 h3 \<and> no_failure n5 h4"
    using p1 p2 p3 p4 p5 by blast
  define copy where "copy = calloc_entry\<lparr>lora_id := c1, name := c2, description := c3,
                           download_url := c4, filename := c5\<rparr>"
  define idcost where "idcost = (case compatible_model_ids src of
        None \<Rightarrow> 0
      | Some ids \<Rightarrow>
          if compatible_model_count src > 0
          then 1 + (\<Sum>i\<leftarrow>[0..<compatible_model_count src]. str_allocations (ids ! i))
          else 0)"
  have cost: "copy_allocations src = S + idcost"
    by (simp add: copy_allocations_def S_def idcost_def n1_def n2_def n3_def n4_def n5_def)
  have nfc: "no_failure (S + idcost) h \<longleftrightarrow> no_failure S h \<and> no_failure idcost h5"
    by (rule no_failure_add [OF d5])
  show ?thesis
  proof (cases ok0)
    case False
    with dc a0 have "r = None" by (simp add: deep_copy_lora_entry_def)
    moreover from False p0 nfS nfc have "\<not> no_failure (S + idcost) h" by blast
    ultimately show ?thesis using cost by simp
  next
    case ok0: True
    then have nf1: "no_failure 1 h" using p0 by simp
    show ?thesis
    proof (cases ?bad)
      case True
      then have "r = None"
        using dc a0 ok0 s1 s2 s3 s4 s5
        by (simp add: deep_copy_lora_entry_def del: not_None_eq)
      moreover from True good nfS nfc have "\<not> no_failure (S + idcost) h" by blast
      ultimately show ?thesis using cost by simp
    next
      case strs: False
      then have nfS': "no_failure S h" using good nfS nf1 by blast
      have simple: "compatible_model_ids src = None \<or> \<not> compatible_model_count src > 0 \<Longrightarrow>
        r \<noteq> None \<and> h' = h5"
        using dc a0 ok0 s1 s2 s3 s4 s5 strs
        by (auto simp add: deep_copy_lora_entry_def Let_def simp del: not_None_eq
            split: option.splits)
      show ?thesis
      proof (cases "compatible_model_ids src = None \<or> \<not> compatible_model_count src > 0")
        case True
        then have "idcost = 0" by (auto simp: idcost_def split: option.splits)
        with simple [OF True] nfS' d5 cost show ?thesis by simp
      next
        case False
        then obtain ids where ids: "compatible_model_ids src = Some ids"
          and pos: "compatible_model_count src > 0" by auto
        define n where "n = compatible_model_count src"
        define k where "k = (\<Sum>i\<leftarrow>[0..<n]. str_allocations (ids ! i))"
        have ic: "idcost = 1 + k" using ids pos by (simp add: idcost_def k_def n_def)
        obtain ok dst h7 where cp: "copy_model_ids ids n 0 (replicate n None) h6 = (ok, dst, h7)"
          by (metis prod_cases3)
        note cpp = copy_model_ids_plan [OF cp, folded k_def]
        have d6: "plan h6 = drop 1 (plan h5)" using p6 by simp
        have nfi: "no_failure (1 + k) h5 \<longleftrightarrow> no_failure 1 h5 \<and> no_failure k h6"
          by (rule no_failure_add [OF d6])
        show ?thesis
        proof (cases ok6)
          case False
          then have "r = None"
            using dc a0 ok0 s1 s2 s3 s4 s5 strs ids pos a6
            by (simp add: deep_copy_lora_entry_def Let_def del: not_None_eq)
          moreover from False p6 nfi nfc ic have "\<not> no_failure (S + idcost) h" by simp
          ultimately show ?thesis using cost by simp
        next
          case ok6: True
          show ?thesis
          proof (cases ok)
            case False
            then have "r = None"
              using dc a0 ok0 s1 s2 s3 s4 s5 strs ids pos a6 ok6 cp
              by (simp add: deep_copy_lora_entry_def n_def Let_def del: not_None_eq)
            moreover from False cpp nfi nfc ic have "\<not> no_failure (S + idcost) h" by simp
            ultimately show ?thesis using cost by simp
          next
            case True
            then have res: "r \<noteq> None" "h' = h7"
              using dc a0 ok0 s1 s2 s3 s4 s5 strs ids pos a6 ok6 cp
              by (auto simp add: deep_copy_lora_entry_def n_def Let_def simp del: not_None_eq)
            from True cpp have "no_failure k h6" "plan h7 = drop k (plan h6)" by simp_all
            moreover from ok6 p6 have "no_failure 1 h5" by simp
            ultimately have "no_failure (S + idcost) h" "plan h7 = drop (S + idcost) (plan h)"
              using nfi nfc ic nfS' d6 d5 by (simp_all add: add.commute add.left_commute)
            with res cost show ?thesis by simp
          qed
        qed
      qed
    qed
  qed
qed


subsection \<open>What a lookup returns\<close>

lemma get_stored:
  assumes lk: "RBT.lookup (entries reg) aid = Some stored"
      and g: "rac_lora_registry_get h (Some reg) (Some aid) (Some out) = (res, cell, h')"
  shows "(res = RAC_SUCCESS \<and> (\<exists>r. cell = Some (Some r) \<and> same_fields r stored)) \<or>
         (res = RAC_ERROR_OUT_OF_MEMORY \<and> cell = Some None \<and> live h' = live h)"
    and "plan h = [] \<Longrightarrow> res = RAC_SUCCESS"
proof -
  obtain r h1 where dc: "deep_copy_lora_entry h (Some stored) = (r, h1)" by force
  show "(res = RAC_SUCCESS \<and> (\<exists>r. cell = Some (Some r) \<and> same_fields r stored)) \<or>
         (res = RAC_ERROR_OUT_OF_MEMORY \<and> cell = Some None \<and> live h' = live h)"
  proof (cases r)
    case None
    with dc g lk deep_copy_fail_live [of h "Some stored" h1] show ?thesis
      by (simp add: rac_lora_registry_get_def)
  next
    case (Some c)
    with dc g lk deep_copy_success(1) [of h stored c h1] show ?thesis
      by (auto simp: rac_lora_registry_get_def)
  qed
  assume "plan h = []"
  from deep_copy_plan_nil [OF this, of stored] dc g lk show "res = RAC_SUCCESS"
    by (auto simp: rac_lora_registry_get_def)
qed

subsection \<open>The three outcomes of a registration\<close>

lemma register_cases:
  assumes "rac_lora_registry_register h (Some reg) (Some e) = (res, handle', h')"
  shows "(res = RAC_ERROR_INVALID_ARGUMENT \<and> lora_id e = None \<and> handle' = Some reg \<and> h' = h) \<or>
         (res = RAC_ERROR_OUT_OF_MEMORY \<and> lora_id e \<noteq> None \<and> handle' = Some reg \<and> live h' = live h) \<or>
         (res = RAC_SUCCESS \<and>
            (\<exists>aid c. lora_id e = Some aid \<and> same_fields c e \<and> valid_entry c \<and>
               handle' = Some (reg\<lparr>entries := RBT.insert aid c (entries reg)\<rparr>)))"
proof (cases "lora_id e")
  case None
  with assms show ?thesis by (simp add: rac_lora_registry_register_def)
next
  case (Some aid)
  obtain r h1 where dc: "deep_copy_lora_entry h (Some e) = (r, h1)" by force
  show ?thesis
  proof (cases r)
    case None
    with Some dc assms deep_copy_fail_live [of h "Some e" h1] show ?thesis
      by (simp add: rac_lora_registry_register_def)
  next
    case c: (Some c)
    with Some dc assms deep_copy_success(1,2) [of h e c h1] show ?thesis
      by (auto simp: rac_lora_registry_register_def Let_def)
  qed
qed



section \<open>Properties of the matching loops\<close>

lemma strcmp_eq_0: "strcmp a b = 0 \<longleftrightarrow> a = b"
  by (induction a b rule: strcmp.induct) auto

lemma match_model_ids_eq:
  "match_model_ids ids n i model_id e matches =
     (if \<exists>j. i \<le> j \<and> j < n \<and> ids ! j = Some model_id then matches @ [e] else matches)"
proof (induction ids n i model_id e matches rule: match_model_ids.induct)
  case (1 ids n i model_id e matches)
  show ?case
  proof (cases "i < n")
    case False
    then show ?thesis by (simp add: match_model_ids.simps [of ids n i])
  next
    case True
    have split: "(\<exists>j. i \<le> j \<and> j < n \<and> ids ! j = Some model_id) \<longleftrightarrow>
                 ids ! i = Some model_id \<or> (\<exists>j. Suc i \<le> j \<and> j < n \<and> ids ! j = Some model_id)"
      using True by (metis Suc_leI le_neq_implies_less order_refl Suc_leD)
    show ?thesis
    proof (cases "ids ! i")
      case None
      with True "1.IH"(1) [OF True None] split show ?thesis
        by (simp add: match_model_ids.simps [of ids n i])
    next
      case (Some s)
      show ?thesis
      proof (cases "strcmp s model_id = 0")
        case eq: True
        then have "s = model_id" by (simp add: strcmp_eq_0)
        with True Some eq split show ?thesis
          by (simp add: match_model_ids.simps [of ids n i])
      next
        case ne: False
        then have "s \<noteq> model_id" by (simp add: strcmp_eq_0)
        with True Some ne "1.IH"(2) [OF True Some ne] split show ?thesis
          by (simp add: match_model_ids.simps [of ids n i])
      qed
    qed
  qed
qed

lemma model_matches_iff:
  "model_matches model_id e \<longleftrightarrow>
     (case compatible_model_ids e of
        None \<Rightarrow> False
      | Some ids \<Rightarrow> \<exists>j. j < compatible_model_count e \<and> ids ! j = Some model_id)"
  by (auto simp: model_matches_def model_ids_of_def image_iff Bex_def split: option.splits)

lemma collect_matches_acc:
  "fold (\<lambda>(k, e) matches.
             case compatible_model_ids e of
               None \<Rightarrow> matches
             | Some ids \<Rightarrow>
                 match_model_ids ids (compatible_model_count e) 0 model_id e matches)
          pairs acc =
   acc @ map snd (filter (\<lambda>p. model_matches model_id (snd p)) pairs)"
proof (induction pairs arbitrary: acc)
  case Nil
  show ?case by simp
next
  case (Cons p pairs)
  obtain k e where p: "p = (k, e)" by force
  show ?case
    by (simp add: p Cons.IH match_model_ids_eq model_matches_iff split: option.splits)
qed

lemma collect_matches_eq:
  "collect_matches pairs model_id =
     map snd (filter (\<lambda>p. model_matches model_id (snd p)) pairs)"
  by (simp add: collect_matches_def collect_matches_acc)

lemma free_copies_live:
  "live (fold (\<lambda>c hh. free_lora_entry hh (Some c)) out h) = live h - (\<Sum>c\<leftarrow>out. blocks c)"
  by (induction out arbitrary: h) (simp_all add: free_lora_entry_live)

lemma copy_matches_cases:
  "copy_matches ms out h = (r, h') \<Longrightarrow>
     (r = None \<and> live h' = live h - (\<Sum>c\<leftarrow>out. blocks c)) \<or>
     (\<exists>cs. r = Some (out @ cs) \<and> list_all2 same_fields cs ms)"
proof (induction ms arbitrary: out h)
  case Nil
  then show ?case by auto
next
  case (Cons m ms)
  obtain c h1 where dc: "deep_copy_lora_entry h (Some m) = (c, h1)" by force
  show ?case
  proof (cases c)
    case None
    with dc Cons.prems deep_copy_fail_live [of h "Some m" h1] show ?thesis
      by (auto simp: free_copies_live)
  next
    case (Some c')
    with dc Cons.prems have rec: "copy_matches ms (out @ [c']) h1 = (r, h')" by simp
    from deep_copy_success [of h m c' h1] dc Some
    have sf: "same_fields c' m" and lv: "live h1 = live h + blocks c'" by simp_all
    from Cons.IH [OF rec] show ?thesis
    proof
      assume "r = None \<and> live h' = live h1 - (\<Sum>c\<leftarrow>out @ [c']. blocks c)"
      with lv show ?thesis by simp
    next
      assume "\<exists>cs. r = Some ((out @ [c']) @ cs) \<and> list_all2 same_fields cs ms"
      then obtain cs where "r = Some (out @ c' # cs)" "list_all2 same_fields cs ms" by auto
      with sf have "r = Some (out @ (c' # cs)) \<and> list_all2 same_fields (c' # cs) (m # ms)" by simp
      then show ?thesis by blast
    qed
  qed
qed

lemma copy_matches_plan:
  "copy_matches ms out h = (r, h') \<Longrightarrow>
     (r \<noteq> None \<longleftrightarrow> no_failure (\<Sum>m\<leftarrow>ms. copy_allocations m) h) \<and>
     (\<forall>res. r = Some res \<longrightarrow>
        plan h' = drop (\<Sum>m\<leftarrow>ms. copy_allocations m) (plan h) \<and>
        (\<exists>cs. res = out @ cs \<and> list_all2 same_fields cs ms \<and> list_all valid_entry cs \<and>
              live h' = live h + (\<Sum>c\<leftarrow>cs. blocks c)))"
proof (induction ms arbitrary: out h)
  case Nil
  then show ?case by (auto simp: no_failure_0)
next
  case (Cons m ms)
  obtain c h1 where dc: "deep_copy_lora_entry h (Some m) = (c, h1)" by force
  note dp = deep_copy_plan [OF dc]
  let ?k = "\<Sum>m\<leftarrow>ms. copy_allocations m"
  show ?case
  proof (cases c)
    case None
    with dc Cons.prems have "r = None" by simp
    moreover from None dp have "\<not> no_failure (copy_allocations m) h" by simp
    then have "\<not> no_failure (copy_allocations m + ?k) h" using no_failure_mono by blast
    ultimately show ?thesis by simp
  next
    case (Some c')
    with dc Cons.prems have rec: "copy_matches ms (out @ [c']) h1 = (r, h')" by simp
    from deep_copy_success [of h m c' h1] dc Some
    have sf: "same_fields c' m" and ve: "valid_entry c'" and lv: "live h1 = live h + blocks c'"
      by simp_all
    from Some dp have nf: "no_failure (copy_allocations m) h"
      and d1: "plan h1 = drop (copy_allocations m) (plan h)" by simp_all
    note IH = Cons.IH [OF rec]
    have a: "r \<noteq> None \<longleftrightarrow> no_failure (copy_allocations m + ?k) h"
      using IH nf no_failure_add [OF d1, of ?k] by simp
    have b: "plan h' = drop (copy_allocations m + ?k) (plan h) \<and>
        (\<exists>cs. res = out @ cs \<and> list_all2 same_fields cs (m # ms) \<and> list_all valid_entry cs \<and>
              live h' = live h + (\<Sum>c\<leftarrow>cs. blocks c))" if "r = Some res" for res
    proof -
      from IH that obtain cs where p: "plan h' = drop ?k (plan h1)"
        and cs: "res = (out @ [c']) @ cs" "list_all2 same_fields cs ms" "list_all valid_entry cs"
          "live h' = live h1 + (\<Sum>c\<leftarrow>cs. blocks c)"
        by blast
      have "res = out @ (c' # cs)" using cs by simp
      moreover have "list_all2 same_fields (c' # cs) (m # ms)" using cs sf by simp
      moreover have "list_all valid_entry (c' # cs)" using cs ve by simp
      moreover have "live h' = live h + (\<Sum>c\<leftarrow>c' # cs. blocks c)" using cs lv by simp
      moreover have "plan h' = drop (copy_allocations m + ?k) (plan h)"
        using p d1 by (simp add: add.commute)
      ultimately show ?thesis by blast
    qed
    from a b show ?thesis by simp
  qed
qed

section \<open>Claims about the LoRA registry\<close>

text \<open>
  Claim C1. When \<^verbatim>\<open>rac_lora_registry_register\<close> returns out-of-memory for an entry
  with a non-null id, the registry is exactly as it was, every block allocated for the
  unfinished copy has been released, and an entry registered earlier under that id is
  still what \<^verbatim>\<open>rac_lora_registry_get\<close> returns: a later get either runs out of memory
  itself or succeeds with a record equal to the old one field for field, and it
  succeeds whenever no allocation fails.
\<close>

theorem register_out_of_memory_atomic:
  assumes ve: "valid_entry e" and vr: "valid_registry reg"
      and oom: "rac_lora_registry_register h (Some reg) (Some e) =
                  (RAC_ERROR_OUT_OF_MEMORY, handle', h')"
  shows "handle' = Some reg \<and> live h' = live h \<and>
         (\<exists>aid. lora_id e = Some aid \<and>
            (\<forall>old h2 out res cell h3.
               RBT.lookup (entries reg) aid = Some old \<and>
               rac_lora_registry_get h2 handle' (Some aid) (Some out) = (res, cell, h3) \<longrightarrow>
                 ((res = RAC_SUCCESS \<and> (\<exists>r. cell = Some (Some r) \<and> same_fields r old)) \<or>
                  (res = RAC_ERROR_OUT_OF_MEMORY \<and> cell = Some None)) \<and>
                 (plan h2 = [] \<longrightarrow> res = RAC_SUCCESS)))"
proof -
  from register_cases [OF oom]
  have h: "handle' = Some reg" and l: "live h' = live h" and i: "lora_id e \<noteq> None" by auto
  from i obtain aid where aid: "lora_id e = Some aid" by auto
  have "((res = RAC_SUCCESS \<and> (\<exists>r. cell = Some (Some r) \<and> same_fields r old)) \<or>
          (res = RAC_ERROR_OUT_OF_MEMORY \<and> cell = Some None)) \<and>
        (plan h2 = [] \<longrightarrow> res = RAC_SUCCESS)"
    if "RBT.lookup (entries reg) aid = Some old"
      and "rac_lora_registry_get h2 handle' (Some aid) (Some out) = (res, cell, h3)"
    for old h2 out res cell h3
    using get_stored [OF that(1), of h2 out res cell h3] that(2) h by auto
  with h l aid show ?thesis by blast
qed

text \<open>
  Scenario S2 of the specification: \<open>l1\<close> is registered with scale 0.3 (bit pattern
  \<open>0x3E99999A\<close>); registering \<open>l1\<close> with scale 0.7 fails at the second allocation
  of the copy; a later get still returns scale 0.3.
\<close>

theorem register_out_of_memory_atomic_witness:
  "valid_entry s2_new \<and> valid_registry s2_registry \<and>
   rac_lora_registry_register \<lparr>plan = [True, False], live = 2\<rparr> (Some s2_registry) (Some s2_new) =
     (RAC_ERROR_OUT_OF_MEMORY, Some s2_registry, \<lparr>plan = [], live = 2\<rparr>) \<and>
   RBT.lookup (entries s2_registry) ''l1'' = Some s2_old \<and>
   (\<exists>r h3. rac_lora_registry_get \<lparr>plan = [], live = 2\<rparr> (Some s2_registry) (Some ''l1'') (Some None) =
              (RAC_SUCCESS, Some (Some r), h3) \<and> default_scale r = 0x3E99999A)"
proof -
  have ve: "valid_entry s2_new" by (simp add: valid_entry_def s2_new_def)
  have vr: "valid_registry s2_registry" by code_simp
  have oom: "rac_lora_registry_register \<lparr>plan = [True, False], live = 2\<rparr> (Some s2_registry) (Some s2_new) =
     (RAC_ERROR_OUT_OF_MEMORY, Some s2_registry, \<lparr>plan = [], live = 2\<rparr>)"
    by (simp add: rac_lora_registry_register_def s2_new_def deep_copy_lora_entry_def alloc_def
        rac_strdup_def free_lora_entry_def free_str_def c_free_def calloc_entry_def)
  have lk: "RBT.lookup (entries s2_registry) ''l1'' = Some s2_old"
    by (simp add: s2_registry_def)
  obtain res cell h3 where g: "rac_lora_registry_get \<lparr>plan = [], live = 2\<rparr> (Some s2_registry)
      (Some ''l1'') (Some None) = (res, cell, h3)"
    by (metis prod_cases3)
  from register_out_of_memory_atomic [OF ve vr oom]
  have "\<forall>old h2 out res cell h3.
          RBT.lookup (entries s2_registry) ''l1'' = Some old \<and>
          rac_lora_registry_get h2 (Some s2_registry) (Some ''l1'') (Some out) = (res, cell, h3) \<longrightarrow>
            ((res = RAC_SUCCESS \<and> (\<exists>r. cell = Some (Some r) \<and> same_fields r old)) \<or>
             (res = RAC_ERROR_OUT_OF_MEMORY \<and> cell = Some None)) \<and>
            (plan h2 = [] \<longrightarrow> res = RAC_SUCCESS)"
    by (simp add: s2_new_def)
  from this [rule_format, OF conjI [OF lk g]]
  have "res = RAC_SUCCESS" and "\<exists>r. cell = Some (Some r) \<and> same_fields r s2_old"
    by auto
  then obtain r where "cell = Some (Some r)" "default_scale r = 0x3E99999A"
    by (auto simp: same_fields_def s2_old_def)
  with g \<open>res = RAC_SUCCESS\<close> ve vr oom lk show ?thesis by blast
qed

text \<open>
  Claim C2. For a well-formed registry and a non-null handle, model id and output
  pointers, let \<open>M\<close> be the list of the registered pairs whose entry has a slot equal,
  byte for byte, to the model id: in key order, each pair once whatever duplicates its
  list holds. When \<open>M\<close> is empty \<^verbatim>\<open>rac_lora_registry_get_for_model\<close> returns the null
  pointer with count 0 and success and leaves the heap alone, whatever the allocator
  would have answered. Otherwise it succeeds exactly when none of the allocations of
  the result (the array and a deep copy of each element of \<open>M\<close>) is refused. It has
  then made exactly those allocations, the count is the length of \<open>M\<close>, and the array
  holds, in the order of \<open>M\<close>, one well-formed copy per element, equal to it field
  for field and made of new blocks: the array and the blocks of the copies are what
  the heap holds more than before. When an allocation is refused the call returns
  out-of-memory, as the header documents, with a null array pointer and every block
  allocated on the way freed.
\<close>

theorem get_for_model_matches:
  assumes vr: "valid_registry reg"
      and g: "rac_lora_registry_get_for_model h (Some reg) (Some model_id) (Some oe) (Some oc) =
                (res, out_entries, out_count, h')"
  shows "\<exists>M. M = filter (\<lambda>p. model_matches model_id (snd p)) (RBT.entries (entries reg)) \<and>
           distinct (map fst M) \<and>
           (\<forall>k e. (k, e) \<in> set M \<longleftrightarrow>
                    RBT.lookup (entries reg) k = Some e \<and> Some model_id \<in> set (model_ids_of e)) \<and>
           (if M = [] then
              res = RAC_SUCCESS \<and> out_entries = Some None \<and> out_count = Some 0 \<and> h' = h
            else
              (res = RAC_SUCCESS \<longleftrightarrow> no_failure (get_for_model_allocations M) h) \<and>
              (res = RAC_SUCCESS \<longrightarrow>
                 out_count = Some (length M) \<and>
                 plan h' = drop (get_for_model_allocations M) (plan h) \<and>
                 (\<exists>out. out_entries = Some (Some out) \<and>
                    list_all2 same_fields out (map snd M) \<and>
                    list_all valid_entry out \<and>
                    live h' = live h + 1 + (\<Sum>c\<leftarrow>out. blocks c))) \<and>
              (res \<noteq> RAC_SUCCESS \<longrightarrow>
                 res = RAC_ERROR_OUT_OF_MEMORY \<and> out_entries = Some None \<and> live h' = live h))"
proof -
  define M where "M = filter (\<lambda>p. model_matches model_id (snd p)) (RBT.entries (entries reg))"
  have d: "distinct (map fst M)"
    unfolding M_def by (rule distinct_map_filter) (rule RBT.distinct_entries)
  have s: "\<forall>k e. (k, e) \<in> set M \<longleftrightarrow>
                    RBT.lookup (entries reg) k = Some e \<and> Some model_id \<in> set (model_ids_of e)"
    by (auto simp: M_def RBT.lookup_in_tree model_matches_def)
  have cm: "collect_matches (RBT.entries (entries reg)) model_id = map snd M"
    by (simp add: collect_matches_eq M_def)
  let ?k = "\<Sum>m\<leftarrow>map snd M. copy_allocations m"
  have K: "get_for_model_allocations M = 1 + ?k"
    by (simp add: get_for_model_allocations_def comp_def)
  obtain ok h1 where a: "alloc h = (ok, h1)" by force
  obtain r h2 where c: "copy_matches (map snd M) [] h1 = (r, h2)" by force
  note al = alloc_live [OF a] and ap = alloc_plan [OF a]
  note cc = copy_matches_cases [OF c] and cp = copy_matches_plan [OF c]
  have d1: "plan h1 = drop 1 (plan h)" using ap by simp
  note nf = no_failure_add [OF d1, of ?k]
  have body: "if M = [] then
              res = RAC_SUCCESS \<and> out_entries = Some None \<and> out_count = Some 0 \<and> h' = h
            else
              (res = RAC_SUCCESS \<longleftrightarrow> no_failure (get_for_model_allocations M) h) \<and>
              (res = RAC_SUCCESS \<longrightarrow>
                 out_count = Some (length M) \<and>
                 plan h' = drop (get_for_model_allocations M) (plan h) \<and>
                 (\<exists>out. out_entries = Some (Some out) \<and>
                    list_all2 same_fields out (map snd M) \<and>
                    list_all valid_entry out \<and>
                    live h' = live h + 1 + (\<Sum>c\<leftarrow>out. blocks c))) \<and>
              (res \<noteq> RAC_SUCCESS \<longrightarrow>
                 res = RAC_ERROR_OUT_OF_MEMORY \<and> out_entries = Some None \<and> live h' = live h)"
  proof (cases "M = []")
    case True
    with g cm show ?thesis by (simp add: rac_lora_registry_get_for_model_def)
  next
    case ne: False
    show ?thesis
    proof (cases ok)
      case False
      with g cm a ne have "res = RAC_ERROR_OUT_OF_MEMORY" "out_entries = Some None" "h' = h1"
        by (simp_all add: rac_lora_registry_get_for_model_def)
      moreover from False ap nf K have "\<not> no_failure (get_for_model_allocations M) h" by simp
      ultimately show ?thesis using ne al False by simp
    next
      case ok: True
      then have nf1: "no_failure 1 h" using ap by simp
      show ?thesis
      proof (cases r)
        case None
        with g cm a ne ok c have "res = RAC_ERROR_OUT_OF_MEMORY" "out_entries = Some None"
          "h' = c_free h2"
          by (simp_all add: rac_lora_registry_get_for_model_def)
        moreover from None cp nf K have "\<not> no_failure (get_for_model_allocations M) h" by simp
        moreover from None cc al ok have "live (c_free h2) = live h" by (simp add: c_free_def)
        ultimately show ?thesis using ne by simp
      next
        case (Some out)
        with g cm a ne ok c have r: "res = RAC_SUCCESS" "out_entries = Some (Some out)"
          "out_count = Some (length M)" "h' = h2"
          by (simp_all add: rac_lora_registry_get_for_model_def)
        from Some cp have nfk: "no_failure ?k h1" and p2: "plan h2 = drop ?k (plan h1)"
          and ex: "\<exists>cs. out = [] @ cs \<and> list_all2 same_fields cs (map snd M) \<and>
                 list_all valid_entry cs \<and> live h2 = live h1 + (\<Sum>c\<leftarrow>cs. blocks c)"
          by simp_all
        have "no_failure (get_for_model_allocations M) h" using nf nf1 nfk K by simp
        moreover have "plan h2 = drop (get_for_model_allocations M) (plan h)"
          using p2 d1 K by (simp add: add.commute)
        moreover from ex al ok have "list_all2 same_fields out (map snd M)" "list_all valid_entry out"
          "live h2 = live h + 1 + (\<Sum>c\<leftarrow>out. blocks c)" by auto
        ultimately show ?thesis using ne r by simp
      qed
    qed
  qed
  from d s body show ?thesis unfolding M_def by blast
qed

text \<open>
  Scenario S1 of the specification: with \<open>l1\<close> compatible with \<open>mA\<close> and \<open>mB\<close> and
  \<open>l2\<close> compatible with \<open>mB\<close>, the query for \<open>mA\<close> returns \<open>l1\<close> and uses up the
  three answers the allocator had recorded, the query for \<open>mB\<close> returns both, the
  query for \<open>mA\<close> with the third allocation refused returns out-of-memory, and the
  query for \<open>mC\<close> returns the empty result without asking the allocator.
\<close>

theorem get_for_model_matches_witness:
  "valid_registry s1_registry \<and>
   (\<exists>out h'. rac_lora_registry_get_for_model \<lparr>plan = [True, True, True], live = 9\<rparr>
      (Some s1_registry) (Some ''mA'') (Some None) (Some 0) =
        (RAC_SUCCESS, Some (Some out), Some 1, h') \<and>
      list_all2 same_fields out [s1_l1] \<and> plan h' = [] \<and> live h' = 10 + (\<Sum>c\<leftarrow>out. blocks c)) \<and>
   (\<exists>out h'. rac_lora_registry_get_for_model \<lparr>plan = [], live = 9\<rparr> (Some s1_registry) (Some ''mB'')
      (Some None) (Some 0) = (RAC_SUCCESS, Some (Some out), Some 2, h') \<and>
      list_all2 same_fields out [s1_l1, s1_l2]) \<and>
   fst (rac_lora_registry_get_for_model \<lparr>plan = [True, True, False], live = 9\<rparr>
      (Some s1_registry) (Some ''mA'') (Some None) (Some 0)) = RAC_ERROR_OUT_OF_MEMORY \<and>
   rac_lora_registry_get_for_model \<lparr>plan = [False], live = 9\<rparr>
      (Some s1_registry) (Some ''mC'') (Some None) (Some 0) =
        (RAC_SUCCESS, Some None, Some 0, \<lparr>plan = [False], live = 9\<rparr>)"
proof -
  have vr: "valid_registry s1_registry" by code_simp
  have MA: "filter (\<lambda>p. model_matches ''mA'' (snd p)) (RBT.entries (entries s1_registry)) =
           [(''l1'', s1_l1)]"
    by code_simp
  have MB: "filter (\<lambda>p. model_matches ''mB'' (snd p)) (RBT.entries (entries s1_registry)) =
           [(''l1'', s1_l1), (''l2'', s1_l2)]"
    by code_simp
  have MC: "filter (\<lambda>p. model_matches ''mC'' (snd p)) (RBT.entries (entries s1_registry)) = []"
    by code_simp
  have KA: "get_for_model_allocations [(''l1'', s1_l1)] = 6" by code_simp
  have KB: "get_for_model_allocations [(''l1'', s1_l1), (''l2'', s1_l2)] = 10" by code_simp
  obtain r1 oe1 oc1 h1 where g1: "rac_lora_registry_get_for_model \<lparr>plan = [True, True, True], live = 9\<rparr>
      (Some s1_registry) (Some ''mA'') (Some None) (Some 0) = (r1, oe1, oc1, h1)"
    by (metis prod_cases4)
  from get_for_model_matches [OF vr g1] MA KA
  have a: "r1 = RAC_SUCCESS" "oc1 = Some 1" "plan h1 = []"
    "\<exists>out. oe1 = Some (Some out) \<and> list_all2 same_fields out [s1_l1] \<and>
        live h1 = 10 + (\<Sum>c\<leftarrow>out. blocks c)"
    by (auto simp: no_failure_def)
  obtain r2 oe2 oc2 h2 where g2: "rac_lora_registry_get_for_model \<lparr>plan = [], live = 9\<rparr>
      (Some s1_registry) (Some ''mB'') (Some None) (Some 0) = (r2, oe2, oc2, h2)"
    by (metis prod_cases4)
  from get_for_model_matches [OF vr g2] MB KB
  have b: "r2 = RAC_SUCCESS" "oc2 = Some 2"
    "\<exists>out. oe2 = Some (Some out) \<and> list_all2 same_fields out [s1_l1, s1_l2]"
    by (auto simp: no_failure_def)
  obtain r3 oe3 oc3 h3 where g3: "rac_lora_registry_get_for_model \<lparr>plan = [True, True, False], live = 9\<rparr>
      (Some s1_registry) (Some ''mA'') (Some None) (Some 0) = (r3, oe3, oc3, h3)"
    by (metis prod_cases4)
  from get_for_model_matches [OF vr g3] MA KA
  have c: "r3 = RAC_ERROR_OUT_OF_MEMORY"
    by (auto simp: no_failure_def)
  obtain r4 oe4 oc4 h4 where g4: "rac_lora_registry_get_for_model \<lparr>plan = [False], live = 9\<rparr>
      (Some s1_registry) (Some ''mC'') (Some None) (Some 0) = (r4, oe4, oc4, h4)"
    by (metis prod_cases4)
  from get_for_model_matches [OF vr g4] MC
  have e: "r4 = RAC_SUCCESS" "oe4 = Some None" "oc4 = Some 0" "h4 = \<lparr>plan = [False], live = 9\<rparr>"
    by auto
  from vr a g1 b g2 c g3 e g4 show ?thesis by auto
qed



text \<open>
  Claim C9. Null slots inside \<^verbatim>\<open>compatible_model_ids\<close> are handled by every
  operation. A deep copy has the same number of slots as its source and a null slot
  exactly where the source has one, it needs no allocation for a null slot (it succeeds
  whenever no allocation fails), and freeing the copy gives back every block the copy
  took. The matching loop appends the entry exactly when a slot below the count holds
  the model id, so a null slot never matches and an entry with only null slots is never
  appended. \<^verbatim>\<open>free_lora_entry\<close> releases one block for each non-null string and slot,
  the array and the struct, and nothing for a null slot.
\<close>

theorem null_model_ids_tolerated:
  assumes ve: "valid_entry e"
  shows "(\<forall>h c h'. deep_copy_lora_entry h (Some e) = (Some c, h') \<longrightarrow>
            length (model_ids_of c) = length (model_ids_of e) \<and>
            (\<forall>i < length (model_ids_of e).
               (model_ids_of c ! i = None) = (model_ids_of e ! i = None)) \<and>
            live (free_lora_entry h' (Some c)) = live h) \<and>
         (\<forall>h. plan h = [] \<longrightarrow> (\<exists>c h'. deep_copy_lora_entry h (Some e) = (Some c, h'))) \<and>
         (\<forall>ids model_id matches. compatible_model_ids e = Some ids \<longrightarrow>
            match_model_ids ids (compatible_model_count e) 0 model_id e matches =
              (if \<exists>j < compatible_model_count e. ids ! j = Some model_id
               then matches @ [e] else matches)) \<and>
         (\<forall>ids model_id matches. compatible_model_ids e = Some ids \<and>
            (\<forall>j < compatible_model_count e. ids ! j = None) \<longrightarrow>
            match_model_ids ids (compatible_model_count e) 0 model_id e matches = matches) \<and>
         (\<forall>h. live (free_lora_entry h (Some e)) = live h - blocks e \<and>
              plan (free_lora_entry h (Some e)) = plan h)"
proof (intro conjI allI impI)
  fix h c h'
  assume dc: "deep_copy_lora_entry h (Some e) = (Some c, h')"
  from deep_copy_success [OF dc] have sf: "same_fields c e" and lv: "live h' = live h + blocks c"
    by simp_all
  from sf have eq: "model_ids_of c = model_ids_of e" by (simp add: same_fields_def)
  show "length (model_ids_of c) = length (model_ids_of e)" using eq by simp
  show "live (free_lora_entry h' (Some c)) = live h" using lv by (simp add: free_lora_entry_live)
  fix i
  show "(model_ids_of c ! i = None) = (model_ids_of e ! i = None)" using eq by simp
next
  fix h :: heap
  assume "plan h = []"
  from deep_copy_plan_nil [OF this, of e]
  show "\<exists>c h'. deep_copy_lora_entry h (Some e) = (Some c, h')" by blast
next
  fix ids model_id matches
  show "match_model_ids ids (compatible_model_count e) 0 model_id e matches =
              (if \<exists>j < compatible_model_count e. ids ! j = Some model_id
               then matches @ [e] else matches)"
    by (simp add: match_model_ids_eq)
next
  fix ids model_id matches
  assume "compatible_model_ids e = Some ids \<and> (\<forall>j < compatible_model_count e. ids ! j = None)"
  then show "match_model_ids ids (compatible_model_count e) 0 model_id e matches = matches"
    by (simp add: match_model_ids_eq)
next
  fix h
  show "live (free_lora_entry h (Some e)) = live h - blocks e"
    by (rule free_lora_entry_live)
  show "plan (free_lora_entry h (Some e)) = plan h"
    by (rule free_lora_entry_plan)
qed

theorem null_model_ids_tolerated_witness:
  "valid_entry null_slots_entry \<and>
   deep_copy_lora_entry \<lparr>plan = [], live = 0\<rparr> (Some null_slots_entry) =
     (Some null_slots_entry, \<lparr>plan = [], live = 5\<rparr>) \<and>
   model_ids_of null_slots_entry = [None, Some ''mA'', None, Some ''mA''] \<and>
   live (free_lora_entry \<lparr>plan = [], live = 5\<rparr> (Some null_slots_entry)) = 0 \<and>
   match_model_ids [None, Some ''mA'', None, Some ''mA''] 4 0 ''mA'' null_slots_entry [] =
     [null_slots_entry] \<and>
   match_model_ids [None, Some ''mA'', None, Some ''mA''] 4 0 ''mB'' null_slots_entry [] = []"
proof -
  have ve: "valid_entry null_slots_entry" by (simp add: valid_entry_def null_slots_entry_def)
  have dc: "deep_copy_lora_entry \<lparr>plan = [], live = 0\<rparr> (Some null_slots_entry) =
     (Some null_slots_entry, \<lparr>plan = [], live = 5\<rparr>)"
    by code_simp
  have ids: "compatible_model_ids null_slots_entry = Some [None, Some ''mA'', None, Some ''mA'']"
    and cnt: "compatible_model_count null_slots_entry = 4"
    by (simp_all add: null_slots_entry_def)
  have m: "model_ids_of null_slots_entry = [None, Some ''mA'', None, Some ''mA'']"
    by code_simp
  note t = null_model_ids_tolerated [OF ve]
  from t dc have "live (free_lora_entry \<lparr>plan = [], live = 5\<rparr> (Some null_slots_entry)) = live \<lparr>plan = [], live = 0\<rparr>"
    by blast
  then have f: "live (free_lora_entry \<lparr>plan = [], live = 5\<rparr> (Some null_slots_entry)) = 0" by simp
  from t have "\<forall>ids model_id matches. compatible_model_ids null_slots_entry = Some ids \<longrightarrow>
            match_model_ids ids (compatible_model_count null_slots_entry) 0 model_id
              null_slots_entry matches =
              (if \<exists>j < compatible_model_count null_slots_entry. ids ! j = Some model_id
               then matches @ [null_slots_entry] else matches)"
    by (elim conjE)
  from this [rule_format, OF ids, of "''mA''" "[]"]
  have ma: "match_model_ids [None, Some ''mA'', None, Some ''mA''] 4 0 ''mA'' null_slots_entry [] =
              (if \<exists>j < 4. [None, Some ''mA'', None, Some ''mA''] ! j = Some ''mA''
               then [] @ [null_slots_entry] else [])"
    by (simp only: cnt)
  have "\<exists>j < (4::nat). [None, Some ''mA'', None, Some ''mA''] ! j = Some ''mA''"
    by (rule exI [of _ 1]) simp
  with ma have ma': "match_model_ids [None, Some ''mA'', None, Some ''mA''] 4 0 ''mA'' null_slots_entry [] = [null_slots_entry]"
    by simp
  have mb: "match_model_ids [None, Some ''mA'', None, Some ''mA''] 4 0 ''mB'' null_slots_entry [] = []"
    by code_simp
  from ve dc m f ma' mb show ?thesis by blast
qed

section \<open>Claims about the JNI bridge\<close>

lemma stream_env_reaches:
  "reaches_sink t \<Longrightarrow>
   stream_env t = Some (\<not> attached t, Some (t\<lparr>attached := True\<rparr>))"
  by (auto simp: reaches_sink_def stream_env_def GetEnv_def AttachCurrentThread_def
      split: if_splits)

lemma call_throws:
  "throws_on sink tok \<Longrightarrow>
   \<exists>b. CallBooleanMethod env sink tok = (b, env\<lparr>exception_pending := True\<rparr>)"
  by (auto simp: throws_on_def CallBooleanMethod_def split: call_outcome.splits)

lemma token_count_increment:
  "sint (n :: 32 word) < 2147483647 \<Longrightarrow> sint (n + 1) = sint n + 1"
proof -
  assume b: "sint n < 2147483647"
  have lo: "- (2 ^ 31) \<le> sint n" using sint_ge [of n] by simp
  have "sint (n + 1) = signed_take_bit 31 (sint n + 1)"
    by (simp add: sint_word_ariths)
  also have "\<dots> = sint n + 1"
    using b lo by (intro signed_take_bit_int_eq_self) simp_all
  finally show ?thesis .
qed

text \<open>
  Claim C4, as stated, has every token callback return the stop outcome
  (\<^verbatim>\<open>RAC_FALSE\<close>) when \<^verbatim>\<open>onToken\<close> throws. The callback of the LLM entry point clears
  the exception and returns \<^verbatim>\<open>RAC_TRUE\<close>:
\<close>

theorem llm_token_callback_exception_counterexample:
  "reaches_sink worker_thread \<and> throws_on throwing_sink ''Hel'' \<and>
   llm_stream_callback_token (Some llm_ctx0) (Some ''Hel'') worker_thread =
     (RAC_TRUE,
      Some (llm_ctx0\<lparr>llm_accumulated_text := ''Hel'', llm_token_count := 1\<rparr>),
      worker_thread\<lparr>exceptions_described := 1\<rparr>)"
  by (simp add: reaches_sink_def throws_on_def throwing_sink_def llm_stream_callback_token_def
      llm_ctx0_def worker_thread_def stream_env_def GetEnv_def AttachCurrentThread_def
      CallBooleanMethod_def ExceptionCheck_def ExceptionDescribe_def ExceptionClear_def
      DetachCurrentThread_def)

text \<open>
  Claim C4, amended. When the token callback reaches \<^verbatim>\<open>onToken\<close> and \<^verbatim>\<open>onToken\<close>
  throws, both callbacks have accumulated the token, describe the exception once and
  clear it, and leave the thread attached or detached as they found it. The callback of
  the VLM entry point then returns the stop outcome \<^verbatim>\<open>RAC_FALSE\<close>; the callback of
  the LLM entry point disregards the value of the call and returns \<^verbatim>\<open>RAC_TRUE\<close>.
  The token count of the context is a 32-bit \<^verbatim>\<open>int\<close>: below \<open>2147483647\<close> the
  increment adds one; at \<open>2147483647\<close> it overflows, which is left out here.
\<close>

theorem token_callback_exception_outcome:
  assumes "reaches_sink t" and "throws_on sink tok"
      and "llm_jvm lctx" and "llm_callback lctx = Some sink" and "llm_onTokenMethod lctx = Some m"
      and "vlm_jvm vctx" and "vlm_callback vctx = Some sink" and "vlm_onTokenMethod vctx = Some m"
      and "sint (llm_token_count lctx) < 2147483647"
      and "sint (vlm_token_count vctx) < 2147483647"
  shows "(\<exists>t' lctx'. llm_stream_callback_token (Some lctx) (Some tok) t =
                 (RAC_TRUE, Some lctx', t') \<and>
               lctx' = lctx\<lparr>llm_accumulated_text := llm_accumulated_text lctx @ tok,
                             llm_token_count := llm_token_count lctx + 1\<rparr> \<and>
               sint (llm_token_count lctx') = sint (llm_token_count lctx) + 1 \<and>
               \<not> exception_pending t' \<and>
               exceptions_described t' = Suc (exceptions_described t) \<and>
               attached t' = attached t) \<and>
         (\<exists>t' vctx'. vlm_stream_callback_token (Some vctx) (Some tok) t =
                 (RAC_FALSE, Some vctx', t') \<and>
               vctx' = vctx\<lparr>vlm_accumulated_text := vlm_accumulated_text vctx @ tok,
                             vlm_token_count := vlm_token_count vctx + 1\<rparr> \<and>
               sint (vlm_token_count vctx') = sint (vlm_token_count vctx) + 1 \<and>
               \<not> exception_pending t' \<and>
               exceptions_described t' = Suc (exceptions_described t) \<and>
               attached t' = attached t)"
proof -
  note se = stream_env_reaches [OF assms(1)]
  from call_throws [OF assms(2), of "t\<lparr>attached := True\<rparr>"]
  obtain b where cb: "CallBooleanMethod (t\<lparr>attached := True\<rparr>) sink tok =
      (b, t\<lparr>attached := True, exception_pending := True\<rparr>)" by auto
  note li = token_count_increment [OF assms(9)] and vi = token_count_increment [OF assms(10)]
  have l: "\<exists>t' lctx'. llm_stream_callback_token (Some lctx) (Some tok) t =
                 (RAC_TRUE, Some lctx', t') \<and>
               lctx' = lctx\<lparr>llm_accumulated_text := llm_accumulated_text lctx @ tok,
                             llm_token_count := llm_token_count lctx + 1\<rparr> \<and>
               sint (llm_token_count lctx') = sint (llm_token_count lctx) + 1 \<and>
               \<not> exception_pending t' \<and>
               exceptions_described t' = Suc (exceptions_described t) \<and>
               attached t' = attached t"
    using assms(3-5) se cb li
    by (cases "attached t")
       (simp_all add: llm_stream_callback_token_def Let_def ExceptionCheck_def
          ExceptionDescribe_def ExceptionClear_def DetachCurrentThread_def)
  have v: "\<exists>t' vctx'. vlm_stream_callback_token (Some vctx) (Some tok) t =
                 (RAC_FALSE, Some vctx', t') \<and>
               vctx' = vctx\<lparr>vlm_accumulated_text := vlm_accumulated_text vctx @ tok,
                             vlm_token_count := vlm_token_count vctx + 1\<rparr> \<and>
               sint (vlm_token_count vctx') = sint (vlm_token_count vctx) + 1 \<and>
               \<not> exception_pending t' \<and>
               exceptions_described t' = Suc (exceptions_described t) \<and>
               attached t' = attached t"
    using assms(6-8) se cb vi
    by (cases "attached t")
       (simp_all add: vlm_stream_callback_token_def Let_def ExceptionCheck_def
          ExceptionDescribe_def ExceptionClear_def DetachCurrentThread_def)
  from l v show ?thesis by blast
qed

theorem token_callback_exception_outcome_witness:
  "reaches_sink worker_thread \<and> throws_on throwing_sink ''Hel'' \<and>
   sint (llm_token_count llm_ctx0) < 2147483647 \<and>
   sint (vlm_token_count vlm_ctx0) < 2147483647 \<and>
   fst (llm_stream_callback_token (Some llm_ctx0) (Some ''Hel'') worker_thread) = RAC_TRUE \<and>
   fst (vlm_stream_callback_token (Some vlm_ctx0) (Some ''Hel'') worker_thread) = RAC_FALSE \<and>
   \<not> exception_pending (snd (snd (vlm_stream_callback_token (Some vlm_ctx0) (Some ''Hel'') worker_thread)))"
proof -
  have r: "reaches_sink worker_thread"
    by (simp add: reaches_sink_def worker_thread_def GetEnv_def)
  have th: "throws_on throwing_sink ''Hel''"
    by (simp add: throws_on_def throwing_sink_def)
  have l: "llm_jvm llm_ctx0" "llm_callback llm_ctx0 = Some throwing_sink"
    "llm_onTokenMethod llm_ctx0 = Some (''onToken'', ''([B)Z'')"
    by (simp_all add: llm_ctx0_def)
  have v: "vlm_jvm vlm_ctx0" "vlm_callback vlm_ctx0 = Some throwing_sink"
    "vlm_onTokenMethod vlm_ctx0 = Some (''onToken'', ''([B)Z'')"
    by (simp_all add: vlm_ctx0_def)
  have b: "sint (llm_token_count llm_ctx0) < 2147483647"
    "sint (vlm_token_count vlm_ctx0) < 2147483647"
    by (simp_all add: llm_ctx0_def vlm_ctx0_def)
  from token_callback_exception_outcome [OF r th l v b] r th b show ?thesis
    by auto
qed

text \<open>
  Claim C5 asks an install to fail with invalid-argument, and to leave the vtable
  alone, when one of the nine methods cannot be resolved. \<^verbatim>\<open>racSetPlatformAdapter\<close>
  never looks at what \<^verbatim>\<open>GetMethodID\<close> returned: for an adapter whose class has no
  \<^verbatim>\<open>nowMs\<close> it keeps the reference, stores the null method id, fills the vtable and
  returns success.
\<close>

theorem install_with_unresolved_method_succeeds:
  "GetMethodID initial_env (class_methods adapter_without_nowMs) ''nowMs'' ''()J'' =
     (None, initial_env\<lparr>pending_exception := True\<rparr>) \<and>
   fst (racSetPlatformAdapter initial_env initial_globals (Some adapter_without_nowMs)) =
     RAC_SUCCESS \<and>
   g_platform_adapter installed_globals = Some adapter_without_nowMs \<and>
   g_method_now_ms installed_globals = None \<and>
   adapter_now_ms (g_c_adapter installed_globals) = Some Ptr_jni_now_ms_callback \<and>
   g_c_adapter installed_globals \<noteq> g_c_adapter initial_globals \<and>
   \<not> install_refused initial_globals
       (racSetPlatformAdapter initial_env initial_globals (Some adapter_without_nowMs))"
  by (simp add: installed_globals_def racSetPlatformAdapter_def initial_globals_def
      initial_env_def adapter_without_nowMs_def GetMethodID_def NewGlobalRef_def
      zeroed_adapter_def install_refused_def)

text \<open>
  Claim C10. With an adapter installed, \<^verbatim>\<open>racSetPlatformAdapter\<close> called with a null
  adapter deletes the global reference to the installed adapter, leaves no adapter
  installed (so the globals are not what they were) and returns invalid-argument;
  afterwards each of the nine callbacks takes its fallback: the native logger, false,
  adapter-not-set, or the system clock.
\<close>

theorem null_install_uninstalls:
  assumes "g_platform_adapter g = Some old"
  shows "racSetPlatformAdapter env g None =
           (RAC_ERROR_INVALID_ARGUMENT, DeleteGlobalRef env old, g\<lparr>g_platform_adapter := None\<rparr>) \<and>
         g\<lparr>g_platform_adapter := None\<rparr> \<noteq> g \<and>
         (\<forall>g'. g' = snd (snd (racSetPlatformAdapter env g None)) \<longrightarrow>
            g_platform_adapter g' = None \<and>
            (\<forall>t impl level tag message path bytes key val system_seconds.
               jni_log_callback g' t level tag message =
                 Native_log (or_else tag ''RAC'') (or_else message '''') \<and>
               jni_file_exists_callback g' t impl path = RAC_FALSE \<and>
               jni_file_read_callback g' t impl path = (RAC_ERROR_ADAPTER_NOT_SET, None) \<and>
               jni_file_write_callback g' t impl path bytes = RAC_ERROR_ADAPTER_NOT_SET \<and>
               jni_file_delete_callback g' t impl path = RAC_ERROR_ADAPTER_NOT_SET \<and>
               jni_secure_get_callback g' t impl key = (RAC_ERROR_ADAPTER_NOT_SET, None) \<and>
               jni_secure_set_callback g' t impl key val = RAC_ERROR_ADAPTER_NOT_SET \<and>
               jni_secure_delete_callback g' t impl key = RAC_ERROR_ADAPTER_NOT_SET \<and>
               jni_now_ms_callback g' t impl system_seconds = system_seconds * 1000))"
proof -
  have r: "racSetPlatformAdapter env g None =
           (RAC_ERROR_INVALID_ARGUMENT, DeleteGlobalRef env old, g\<lparr>g_platform_adapter := None\<rparr>)"
    using assms by (simp add: racSetPlatformAdapter_def)
  have ne: "g\<lparr>g_platform_adapter := None\<rparr> \<noteq> g"
  proof
    assume "g\<lparr>g_platform_adapter := None\<rparr> = g"
    then have "g_platform_adapter (g\<lparr>g_platform_adapter := None\<rparr>) = g_platform_adapter g"
      by simp
    with assms show False by simp
  qed
  show ?thesis
    using r ne
    by (simp add: jni_log_callback_def jni_file_exists_callback_def jni_file_read_callback_def
        jni_file_write_callback_def jni_file_delete_callback_def jni_secure_get_callback_def
        jni_secure_set_callback_def jni_secure_delete_callback_def jni_now_ms_callback_def)
qed

theorem null_install_uninstalls_witness:
  "g_platform_adapter installed_globals = Some adapter_without_nowMs \<and>
   fst (racSetPlatformAdapter \<lparr>global_refs = [adapter_without_nowMs], pending_exception = False\<rparr>
          installed_globals None) = RAC_ERROR_INVALID_ARGUMENT \<and>
   global_refs (fst (snd (racSetPlatformAdapter
          \<lparr>global_refs = [adapter_without_nowMs], pending_exception = False\<rparr>
          installed_globals None))) = [] \<and>
   g_platform_adapter (snd (snd (racSetPlatformAdapter
          \<lparr>global_refs = [adapter_without_nowMs], pending_exception = False\<rparr>
          installed_globals None))) = None"
proof -
  have a: "g_platform_adapter installed_globals = Some adapter_without_nowMs"
    by (simp add: installed_globals_def racSetPlatformAdapter_def initial_globals_def
      initial_env_def adapter_without_nowMs_def GetMethodID_def NewGlobalRef_def)
  from null_install_uninstalls [OF a, of "\<lparr>global_refs = [adapter_without_nowMs], pending_exception = False\<rparr>"]
  have "racSetPlatformAdapter \<lparr>global_refs = [adapter_without_nowMs], pending_exception = False\<rparr>
          installed_globals None =
        (RAC_ERROR_INVALID_ARGUMENT,
         DeleteGlobalRef \<lparr>global_refs = [adapter_without_nowMs], pending_exception = False\<rparr>
           adapter_without_nowMs,
         installed_globals\<lparr>g_platform_adapter := None\<rparr>)"
    by blast
  with a show ?thesis by (simp add: DeleteGlobalRef_def)
qed

text \<open>
  Claim C6, as stated, has every absent string of a model or LoRA entry written as JSON
  null. The name of a LoRA entry that has none is written as the empty string:
\<close>

theorem lora_null_string_counterexample:
  "name s2_old = None \<and>
   json_field ''name'' (lora_entry_json s2_old) = Some (JString '''') \<and>
   json_field ''name'' (lora_entry_json s2_old) \<noteq> Some JNull"
  by (simp add: s2_old_def lora_entry_json_def json_field_def)

text \<open>
  Claim C6, amended. In the document of a model entry an absent download url, local
  path or description is JSON null, and an absent id or name is the empty string. In
  the document of a LoRA entry an absent id, name, description, download url or
  filename is the empty string. A string that is present is written as it is. The text
  returned for an entry is the dump of that document.
\<close>

theorem nullable_strings_serialized:
  "json_field ''id'' (lora_entry_json e) = Some (JString (or_else (lora_id e) '''')) \<and>
   json_field ''name'' (lora_entry_json e) = Some (JString (or_else (name e) '''')) \<and>
   json_field ''description'' (lora_entry_json e) = Some (JString (or_else (description e) '''')) \<and>
   json_field ''download_url'' (lora_entry_json e) =
     Some (JString (or_else (download_url e) '''')) \<and>
   json_field ''filename'' (lora_entry_json e) = Some (JString (or_else (filename e) '''')) \<and>
   json_field ''model_id'' (model_info_json m) = Some (JString (or_else (mi_id m) '''')) \<and>
   json_field ''name'' (model_info_json m) = Some (JString (or_else (mi_name m) '''')) \<and>
   json_field ''download_url'' (model_info_json m) =
     Some (case mi_download_url m of None \<Rightarrow> JNull | Some s \<Rightarrow> JString s) \<and>
   json_field ''local_path'' (model_info_json m) =
     Some (case mi_local_path m of None \<Rightarrow> JNull | Some s \<Rightarrow> JString s) \<and>
   json_field ''description'' (model_info_json m) =
     Some (case mi_description m of None \<Rightarrow> JNull | Some s \<Rightarrow> JString s) \<and>
   loraEntryToJson dump (Some e) = dump (lora_entry_json e) \<and>
   modelInfoToJson dump (Some m) = dump (model_info_json m)"
  by (intro conjI)
     (simp_all add: lora_entry_json_def model_info_json_def json_field_def or_else_def
        nullable_json_def loraEntryToJson_def modelInfoToJson_def)




lemma mem_leading_space: "c \<in> set leading_space \<longleftrightarrow> is_space c"
  by (auto simp: leading_space_def is_space_def)

lemma find_first_not_of_space:
  "find_first_not_of args leading_space =
     (case dropWhile is_space args of
        [] \<Rightarrow> None
      | c # rest \<Rightarrow> Some (length (takeWhile is_space args)))"
proof (induction args)
  case Nil
  show ?case by simp
next
  case (Cons a args)
  show ?case
  proof (cases "is_space a")
    case True
    then have step: "find_first_not_of (a # args) leading_space =
        map_option Suc (find_first_not_of args leading_space)"
      and dw: "dropWhile is_space (a # args) = dropWhile is_space args"
      and tw: "length (takeWhile is_space (a # args)) = Suc (length (takeWhile is_space args))"
      by (simp_all add: mem_leading_space)
    show ?thesis
    proof (cases "dropWhile is_space args")
      case Nil
      show ?thesis by (simp only: step dw Cons.IH Nil list.case option.map)
    next
      case (Cons c rest)
      show ?thesis by (simp only: step dw tw Cons.IH Cons list.case option.map)
    qed
  next
    case False
    then show ?thesis by (simp add: mem_leading_space)
  qed
qed

lemma nth_takeWhile_dropWhile:
  "dropWhile P xs = c # rest \<Longrightarrow> xs ! length (takeWhile P xs) = c"
proof (induction xs)
  case Nil
  then show ?case by simp
next
  case (Cons a xs)
  show ?case
  proof (cases "P a")
    case True
    with Cons.prems have "dropWhile P xs = c # rest" by simp
    from Cons.IH [OF this] True show ?thesis by simp
  next
    case False
    with Cons.prems show ?thesis by simp
  qed
qed

lemma arguments_text_validated: "arguments_text a = validated_arguments a"
proof (cases a)
  case None
  then show ?thesis by (simp add: arguments_text_def validated_arguments_def)
next
  case (Some args)
  show ?thesis
  proof (cases "dropWhile is_space args")
    case Nil
    have "find_first_not_of args leading_space = None"
      by (simp only: find_first_not_of_space Nil list.case)
    moreover have "validated_arguments a = ''{}''"
      by (simp only: validated_arguments_def Some Nil option.case list.case)
    ultimately show ?thesis using Some by (simp add: arguments_text_def)
  next
    case (Cons c rest)
    have "find_first_not_of args leading_space = Some (length (takeWhile is_space args))"
      by (simp only: find_first_not_of_space Cons list.case)
    moreover from nth_takeWhile_dropWhile [OF Cons]
    have "args ! length (takeWhile is_space args) = c" .
    moreover have "validated_arguments a =
        (if c = CHR ''{'' \<or> c = CHR ''['' then args else ''{}'')"
      by (simp only: validated_arguments_def Some Cons option.case list.case)
    ultimately show ?thesis using Some by (simp add: arguments_text_def)
  qed
qed

text \<open>
  Claim C8. When the parsed result reports a tool call, the entry point returns a
  document whose \<^verbatim>\<open>argumentsJson\<close> part is the text of \<^verbatim>\<open>arguments_json\<close>,
  unchanged, if its first byte after the leading whitespace is an opening brace or
  bracket, and the literal \<^verbatim>\<open>{}\<close> for anything else, null and whitespace-only
  included; a document is returned in every case.
\<close>

theorem tool_call_arguments_validated:
  assumes "rac_tool_call_parse (getCString llmOutput) = (rc, result)"
      and "has_tool_call result = RAC_TRUE"
  shows \<open>racToolCallParse rac_tool_call_parse llmOutput =
           Some (''{"hasToolCall":true,"cleanText":"'' @
                 (case clean_text result of Some s \<Rightarrow> escape_text s | None \<Rightarrow> []) @
                 ''","toolName":"'' @
                 (case tool_name result of Some s \<Rightarrow> s | None \<Rightarrow> []) @
                 ''","argumentsJson":'' @ validated_arguments (arguments_json result) @
                 '',"callId":'' @ to_string (call_id result) @ ''}'')\<close>
  using assms by (simp add: racToolCallParse_def Let_def arguments_text_validated)

theorem tool_call_arguments_validated_witness:
  \<open>racToolCallParse (\<lambda>s. (RAC_SUCCESS, tool_call_spaced)) (Some ''x'') =
     Some ''{"hasToolCall":true,"cleanText":"ok","toolName":"get_weather","argumentsJson": {"city":"Oslo"},"callId":7}'' \<and>
   racToolCallParse (\<lambda>s. (RAC_SUCCESS, tool_call_bare)) (Some ''x'') =
     Some ''{"hasToolCall":true,"cleanText":"ok","toolName":"get_weather","argumentsJson":{},"callId":7}''\<close>
proof -
  have d: "to_string 7 = ''7''" by code_simp
  have e: "escape_text ''ok'' = ''ok''" by code_simp
  have v1: \<open>validated_arguments (Some '' {"city":"Oslo"}'') = '' {"city":"Oslo"}''\<close>
    by (simp add: validated_arguments_def is_space_def)
  have v2: "validated_arguments (Some ''Oslo'') = ''{}''"
    by (simp add: validated_arguments_def is_space_def)
  have a1: "has_tool_call tool_call_spaced = RAC_TRUE" by (simp add: tool_call_spaced_def)
  have a2: "has_tool_call tool_call_bare = RAC_TRUE" by (simp add: tool_call_bare_def)
  from tool_call_arguments_validated [of "\<lambda>s. (RAC_SUCCESS, tool_call_spaced)" "Some ''x''"
      RAC_SUCCESS tool_call_spaced, OF refl a1]
    tool_call_arguments_validated [of "\<lambda>s. (RAC_SUCCESS, tool_call_bare)" "Some ''x''"
      RAC_SUCCESS tool_call_bare, OF refl a2]
  show ?thesis
    by (simp add: tool_call_spaced_def tool_call_bare_def d e v1 v2)
qed

end
